theory Spec2Isabelle
  imports Complex_Main
begin

section \<open>Data model\<close>

text \<open>
  One row of the \<open>issues\<close> table, with the columns the code under verification reads.
  \<open>created_at\<close> and \<open>resolved_at\<close> are timestamp columns; they hold the instant the
  code obtains with \<open>new Date(...).getTime()\<close>: milliseconds since
  1970-01-01T00:00:00Z. Nullable columns are options. The identifier is the field \<open>id\<close>
  of the source. The text columns are free text: the table can hold any string in them.
  A text is the list of the bytes of its UTF-8 encoding.
\<close>

record issue =
  issue_id :: string
  title :: string
  description :: string
  category :: string
  location_name :: "string option"
  status :: string
  priority_score :: "int option"
  upvotes_count :: "int option"
  is_spam :: bool
  created_at :: int
  resolved_at :: "int option"

text \<open>A notification: title, description, and whether its variant is "destructive".\<close>

datatype toast = Toast string string bool

section \<open>What the browser supplies\<close>

text \<open>
  The code calls three things that are the browser's and not the repository's, and that
  differ from one browser and one user to the next. They are parameters of the model.

  \<^item> \<open>toLowerCase\<close> is \<open>String.prototype.toLowerCase\<close>, the lower-casing of Unicode. It
    is not a letter-by-letter table: a capital sigma, for one, becomes the final sigma at
    the end of a word and the ordinary small sigma elsewhere.
  \<^item> \<open>localMonth\<close> and \<open>localYear\<close> are the month (0 for the first month of the year) and
    the year of an instant, in the calendar and the time zone that \<open>toLocaleString\<close> uses
    for the default locale.
  \<^item> \<open>monthYearText\<close> is the text that locale prints for the options
    \<open>{ month: 'short', year: '2-digit' }\<close>, given the month and the last two digits of the
    year: \<open>Jan 24\<close> in English (United States), \<open>janv. 24\<close> in French.
\<close>

record runtime =
  toLowerCase :: "string \<Rightarrow> string"
  localMonth :: "int \<Rightarrow> nat"
  localYear :: "int \<Rightarrow> int"
  monthYearText :: "nat \<Rightarrow> nat \<Rightarrow> string"

section \<open>Issue Collection View (ViewReports)\<close>

subsection \<open>Subscription handler\<close>

datatype eventType = INSERT | UPDATE | DELETE

record payload =
  eventType :: eventType
  new :: issue

record viewState =
  reports :: "issue list"
  toasts :: "toast list"

text \<open>
  The callback registered on the change feed. \<open>setReports(prev => ...)\<close> is the state
  update; the toast raised by the INSERT branch is appended to the notifications.
\<close>

definition onPayload :: "payload \<Rightarrow> viewState \<Rightarrow> viewState" where
  "onPayload p s =
     (if eventType p = INSERT \<and> \<not> is_spam (new p) then
        s\<lparr>reports := new p # reports s,
          toasts := toasts s @
            [Toast ''New Issue Reported'' (title (new p) @ '' in '' @ category (new p)) False]\<rparr>
      else if eventType p = UPDATE then
        s\<lparr>reports := map (\<lambda>report. if issue_id report = issue_id (new p) then new p else report)
                         (reports s)\<rparr>
      else s)"

text \<open>The feed delivers events one at a time, in arrival order.\<close>

definition runFeed :: "viewState \<Rightarrow> payload list \<Rightarrow> viewState" where
  "runFeed s ps = foldl (\<lambda>st p. onPayload p st) s ps"

subsection \<open>Strings\<close>

text \<open>\<open>String.prototype.includes\<close>, the substring test, here \<open>includes_str\<close>.\<close>

fun startsWith :: "string \<Rightarrow> string \<Rightarrow> bool" where
  "startsWith s [] = True"
| "startsWith [] (c # t) = False"
| "startsWith (a # s) (c # t) = (a = c \<and> startsWith s t)"

fun includes_str :: "string \<Rightarrow> string \<Rightarrow> bool" where
  "includes_str [] t = (t = [])"
| "includes_str (a # s) t = (startsWith (a # s) t \<or> includes_str s t)"

subsection \<open>Filter\<close>

text \<open>
  \<open>report.location_name?.toLowerCase().includes(...)\<close> is \<open>undefined\<close>, hence falsy,
  when \<open>location_name\<close> is absent.
\<close>

definition matchesSearch :: "runtime \<Rightarrow> string \<Rightarrow> issue \<Rightarrow> bool" where
  "matchesSearch rt searchTerm report =
     (includes_str (toLowerCase rt (title report)) (toLowerCase rt searchTerm) \<or>
      includes_str (toLowerCase rt (description report)) (toLowerCase rt searchTerm) \<or>
      (case location_name report of
         None \<Rightarrow> False
       | Some n \<Rightarrow> includes_str (toLowerCase rt n) (toLowerCase rt searchTerm)))"

definition matchesStatus :: "string \<Rightarrow> issue \<Rightarrow> bool" where
  "matchesStatus statusFilter report =
     (statusFilter = ''all'' \<or> status report = statusFilter)"

definition matchesCategory :: "string \<Rightarrow> issue \<Rightarrow> bool" where
  "matchesCategory categoryFilter report =
     (categoryFilter = ''all'' \<or> category report = categoryFilter)"

definition filterReports ::
  "runtime \<Rightarrow> string \<Rightarrow> string \<Rightarrow> string \<Rightarrow> issue list \<Rightarrow> issue list" where
  "filterReports rt searchTerm statusFilter categoryFilter rs =
     filter (\<lambda>report. matchesSearch rt searchTerm report \<and>
                       matchesStatus statusFilter report \<and>
                       matchesCategory categoryFilter report) rs"

subsection \<open>Sort\<close>

text \<open>
  \<open>Array.prototype.sort\<close> with a comparison function: the language requires the sort to
  be stable, so for a comparator that is a consistent ordering the result is the one
  insertion from the right produces: each element goes before the first element it does
  not compare greater than.
\<close>

fun insertBy :: "('a \<Rightarrow> 'a \<Rightarrow> int) \<Rightarrow> 'a \<Rightarrow> 'a list \<Rightarrow> 'a list" where
  "insertBy cmp x [] = [x]"
| "insertBy cmp x (y # ys) = (if cmp x y \<le> 0 then x # y # ys else y # insertBy cmp x ys)"

definition jsSort :: "('a \<Rightarrow> 'a \<Rightarrow> int) \<Rightarrow> 'a list \<Rightarrow> 'a list" where
  "jsSort cmp xs = foldr (insertBy cmp) xs []"

text \<open>\<open>v || 0\<close> for a nullable number.\<close>

definition orZero :: "int option \<Rightarrow> int" where
  "orZero v = (case v of None \<Rightarrow> 0 | Some n \<Rightarrow> n)"

definition compareReports :: "string \<Rightarrow> issue \<Rightarrow> issue \<Rightarrow> int" where
  "compareReports sortBy a b =
     (if sortBy = ''popular'' then orZero (upvotes_count b) - orZero (upvotes_count a)
      else if sortBy = ''priority'' then orZero (priority_score b) - orZero (priority_score a)
      else if sortBy = ''newest'' then created_at b - created_at a
      else if sortBy = ''oldest'' then created_at a - created_at b
      else created_at b - created_at a)"

text \<open>The effect that recomputes \<open>filteredReports\<close>: filter, then sort.\<close>

definition filteredReports ::
  "runtime \<Rightarrow> string \<Rightarrow> string \<Rightarrow> string \<Rightarrow> string \<Rightarrow> issue list \<Rightarrow> issue list" where
  "filteredReports rt searchTerm statusFilter categoryFilter sortBy rs =
     jsSort (compareReports sortBy) (filterReports rt searchTerm statusFilter categoryFilter rs)"

section \<open>Analytics dashboards\<close>

subsection \<open>Plain objects used as dictionaries\<close>

text \<open>
  Every aggregator folds into an accumulator created by the literal \<open>{}\<close>. Such an
  object is modelled by its own properties, in creation order. Its prototype is
  \<open>Object.prototype\<close>, so a read \<open>acc[k]\<close> of a key that is not an own property but
  is a member of \<open>Object.prototype\<close> yields that inherited member, which is truthy; any
  other missing key reads as \<open>undefined\<close>.
\<close>

type_synonym 'v object = "(string \<times> 'v) list"

definition objectPrototypeKeys :: "string list" where
  "objectPrototypeKeys =
     [''constructor'', ''__defineGetter__'', ''__defineSetter__'', ''hasOwnProperty'',
      ''__lookupGetter__'', ''__lookupSetter__'', ''isPrototypeOf'', ''propertyIsEnumerable'',
      ''toString'', ''valueOf'', ''__proto__'', ''toLocaleString'']"

datatype 'v jsval = Own 'v | Inherited | Undefined

definition getProp :: "'v object \<Rightarrow> string \<Rightarrow> 'v jsval" where
  "getProp acc k =
     (case map_of acc k of
        Some v \<Rightarrow> Own v
      | None \<Rightarrow> if k \<in> set objectPrototypeKeys then Inherited else Undefined)"

text \<open>\<open>acc[k] = v\<close>, used by the aggregators only where \<open>acc[k]\<close> read as \<open>undefined\<close>.\<close>

definition setProp :: "'v object \<Rightarrow> string \<Rightarrow> 'v \<Rightarrow> 'v object" where
  "setProp acc k v =
     (if map_of acc k = None then acc @ [(k, v)]
      else map (\<lambda>(k', v'). if k' = k then (k', v) else (k', v')) acc)"

text \<open>
  \<open>acc[k].field++\<close> and \<open>acc[k].field += x\<close>: the object \<open>acc[k]\<close> refers to is
  mutated. When that object is an inherited member of \<open>Object.prototype\<close>, the own
  properties of \<open>acc\<close> stay as they are.
\<close>

definition modifyProp :: "'v object \<Rightarrow> string \<Rightarrow> ('v \<Rightarrow> 'v) \<Rightarrow> 'v object" where
  "modifyProp acc k f = map (\<lambda>(k', v). if k' = k then (k', f v) else (k', v)) acc"

text \<open>
  \<open>Object.keys\<close> and \<open>Object.values\<close> enumerate the own properties: first the keys that
  are array indices (canonical decimal numerals below \<open>2^32 - 1\<close>) in ascending numeric
  order, then the other keys in creation order. \<open>objectEntries\<close> lists the properties
  in that order; \<open>Object.keys(o).map(k => ... o[k] ...)\<close> visits them one by one.
\<close>

definition digitValue :: "char \<Rightarrow> nat" where
  "digitValue c =
     (case map_of (zip ''0123456789'' [0, 1, 2, 3, 4, 5, 6, 7, 8, 9]) c of
        Some d \<Rightarrow> d
      | None \<Rightarrow> 0)"

definition isDigit :: "char \<Rightarrow> bool" where
  "isDigit c = (map_of (zip ''0123456789'' [0, 1, 2, 3, 4, 5, 6, 7, 8, 9 :: nat]) c \<noteq> None)"

definition numericValue :: "string \<Rightarrow> nat" where
  "numericValue k = foldl (\<lambda>n c. 10 * n + digitValue c) 0 k"

definition isArrayIndex :: "string \<Rightarrow> bool" where
  "isArrayIndex k =
     (k \<noteq> [] \<and> list_all isDigit k \<and> (k = ''0'' \<or> hd k \<noteq> CHR ''0'') \<and>
      numericValue k < 4294967295)"

definition objectEntries :: "'v object \<Rightarrow> (string \<times> 'v) list" where
  "objectEntries acc =
     sort_key (\<lambda>(k, v). numericValue k) (filter (\<lambda>(k, v). isArrayIndex k) acc) @
     filter (\<lambda>(k, v). \<not> isArrayIndex k) acc"

definition objectValues :: "'v object \<Rightarrow> 'v list" where
  "objectValues acc = map snd (objectEntries acc)"

subsection \<open>Dates\<close>

text \<open>
  \<open>getDay\<close> reads an instant in the local time zone of the browser: \<open>tz t\<close> is the
  offset of local time from UTC at the instant \<open>t\<close>, in milliseconds. Day 0 is
  1970-01-01, a Thursday.
\<close>

definition localDay :: "(int \<Rightarrow> int) \<Rightarrow> int \<Rightarrow> int" where
  "localDay tz t = (t + tz t) div 86400000"

definition getDay :: "(int \<Rightarrow> int) \<Rightarrow> int \<Rightarrow> nat" where
  "getDay tz t = nat ((localDay tz t + 4) mod 7)"

text \<open>
  \<open>formatMonth\<close> is \<open>new Date(dateString).toLocaleString('default', { month: 'short',
  year: '2-digit' })\<close>: the text of the default locale for the month of the instant and
  the last two digits of its year.
\<close>

definition formatMonth :: "runtime \<Rightarrow> int \<Rightarrow> string" where
  "formatMonth rt t = monthYearText rt (localMonth rt t) (nat (localYear rt t mod 100))"

subsection \<open>Monthly totals (both dashboards)\<close>

record MonthlyReportData =
  month :: string
  total :: nat
  resolved :: nat

definition monthlyStep ::
  "runtime \<Rightarrow> MonthlyReportData object \<Rightarrow> issue \<Rightarrow> MonthlyReportData object" where
  "monthlyStep rt acc i =
     (let m = formatMonth rt (created_at i);
          acc1 = (if getProp acc m = Undefined
                  then setProp acc m \<lparr>month = m, total = 0, resolved = 0\<rparr> else acc);
          acc2 = modifyProp acc1 m (\<lambda>b. b\<lparr>total := total b + 1\<rparr>)
      in if status i = ''resolved''
         then modifyProp acc2 m (\<lambda>b. b\<lparr>resolved := resolved b + 1\<rparr>) else acc2)"

definition processMonthlyReports :: "runtime \<Rightarrow> issue list \<Rightarrow> MonthlyReportData list" where
  "processMonthlyReports rt issues = objectValues (foldl (monthlyStep rt) [] issues)"

subsection \<open>Category distribution\<close>

text \<open>The first dashboard sorts by count and colours by rank.\<close>

record CategoryDistributionData =
  name :: string
  count_c :: nat
  fill :: string

definition COLORS :: "string list" where
  "COLORS = [''#0088FE'', ''#00C49F'', ''#FFBB28'', ''#FF8042'', ''#AF19FF'', ''#FF1943'']"

definition categoryStep ::
  "CategoryDistributionData object \<Rightarrow> issue \<Rightarrow> CategoryDistributionData object" where
  "categoryStep acc i =
     (let acc1 = (if getProp acc (category i) = Undefined
                  then setProp acc (category i) \<lparr>name = category i, count_c = 0, fill = []\<rparr>
                  else acc)
      in modifyProp acc1 (category i) (\<lambda>b. b\<lparr>count_c := count_c b + 1\<rparr>))"

definition processCategoryDistribution :: "issue list \<Rightarrow> CategoryDistributionData list" where
  "processCategoryDistribution issues =
     (let data = foldl categoryStep [] issues;
          sortedData = jsSort (\<lambda>a b. int (count_c b) - int (count_c a)) (objectValues data)
      in map (\<lambda>(index, item). item\<lparr>fill := COLORS ! (index mod length COLORS)\<rparr>)
             (enumerate 0 sortedData))"

text \<open>The alternate dashboard returns the buckets as they are.\<close>

record CategoryCountData =
  category_a :: string
  count_a :: nat

definition categoryStepAlt :: "CategoryCountData object \<Rightarrow> issue \<Rightarrow> CategoryCountData object" where
  "categoryStepAlt acc i =
     (let acc1 = (if getProp acc (category i) = Undefined
                  then setProp acc (category i) \<lparr>category_a = category i, count_a = 0\<rparr>
                  else acc)
      in modifyProp acc1 (category i) (\<lambda>b. b\<lparr>count_a := count_a b + 1\<rparr>))"

definition processCategoryDistributionAlt :: "issue list \<Rightarrow> CategoryCountData list" where
  "processCategoryDistributionAlt issues = objectValues (foldl categoryStepAlt [] issues)"

subsection \<open>Day of week (first dashboard)\<close>

record ReportsByDayData =
  day :: string
  count_d :: nat

definition daysOfWeek :: "string list" where
  "daysOfWeek = [''Sun'', ''Mon'', ''Tue'', ''Wed'', ''Thu'', ''Fri'', ''Sat'']"

definition dayStep ::
  "(int \<Rightarrow> int) \<Rightarrow> ReportsByDayData object \<Rightarrow> issue \<Rightarrow> ReportsByDayData object" where
  "dayStep tz acc i =
     (let d = daysOfWeek ! getDay tz (created_at i);
          acc1 = (if getProp acc d = Undefined
                  then setProp acc d \<lparr>day = d, count_d = 0\<rparr> else acc)
      in modifyProp acc1 d (\<lambda>b. b\<lparr>count_d := count_d b + 1\<rparr>))"

text \<open>
  \<open>data[day] || { day, count: 0 }\<close> for each of the seven names; none of them is a member of
  \<open>Object.prototype\<close>, so the read is an own bucket or \<open>undefined\<close>.
\<close>

definition processReportsByDay :: "(int \<Rightarrow> int) \<Rightarrow> issue list \<Rightarrow> ReportsByDayData list" where
  "processReportsByDay tz issues =
     (let data = foldl (dayStep tz) [] issues
      in map (\<lambda>d. case getProp data d of
                     Own b \<Rightarrow> b
                   | _ \<Rightarrow> \<lparr>day = d, count_d = 0\<rparr>) daysOfWeek)"

subsection \<open>Location hotspots (both dashboards)\<close>

record LocationHotspotData =
  location :: string
  count :: nat

text \<open>\<open>issue.location_name || 'Unknown'\<close>: null and the empty string are falsy.\<close>

definition locationKey :: "issue \<Rightarrow> string" where
  "locationKey i =
     (case location_name i of
        None \<Rightarrow> ''Unknown''
      | Some n \<Rightarrow> if n = [] then ''Unknown'' else n)"

definition hotspotStep ::
  "LocationHotspotData object \<Rightarrow> issue \<Rightarrow> LocationHotspotData object" where
  "hotspotStep acc i =
     (let l = locationKey i;
          acc1 = (if getProp acc l = Undefined
                  then setProp acc l \<lparr>location = l, count = 0\<rparr> else acc)
      in modifyProp acc1 l (\<lambda>b. b\<lparr>count := count b + 1\<rparr>))"

text \<open>The buckets before the sort and the truncation.\<close>

definition hotspotBuckets :: "issue list \<Rightarrow> LocationHotspotData list" where
  "hotspotBuckets issues = objectValues (foldl hotspotStep [] issues)"

definition processLocationHotspots :: "issue list \<Rightarrow> LocationHotspotData list" where
  "processLocationHotspots issues =
     take 10 (jsSort (\<lambda>a b. int (count b) - int (count a)) (hotspotBuckets issues))"

subsection \<open>Resolution time (alternate dashboard)\<close>

text \<open>
  Hours are fractions: the quotients and sums of the source are taken exactly, over the
  rationals.
\<close>

record ResolutionTimeData =
  category_r :: string
  avg_time_hours :: rat

record timeAcc =
  total_time :: rat
  count_t :: nat

definition isResolved :: "issue \<Rightarrow> bool" where
  "isResolved i = (status i = ''resolved'' \<and> resolved_at i \<noteq> None)"

definition hoursToResolve :: "issue \<Rightarrow> rat" where
  "hoursToResolve i =
     of_int ((case resolved_at i of Some r \<Rightarrow> r | None \<Rightarrow> 0) - created_at i) /
     (1000 * 60 * 60)"

definition resolutionStep :: "timeAcc object \<Rightarrow> issue \<Rightarrow> timeAcc object" where
  "resolutionStep acc i =
     (let acc1 = (if getProp acc (category i) = Undefined
                  then setProp acc (category i) \<lparr>total_time = 0, count_t = 0\<rparr> else acc);
          acc2 = modifyProp acc1 (category i)
                   (\<lambda>b. b\<lparr>total_time := total_time b + hoursToResolve i\<rparr>)
      in modifyProp acc2 (category i) (\<lambda>b. b\<lparr>count_t := count_t b + 1\<rparr>))"

definition processResolutionTimes :: "issue list \<Rightarrow> ResolutionTimeData list" where
  "processResolutionTimes issues =
     (let resolvedIssues = filter isResolved issues;
          dataByCategory = foldl resolutionStep [] resolvedIssues
      in map (\<lambda>(c, b). \<lparr>category_r = c, avg_time_hours = total_time b / of_nat (count_t b)\<rparr>)
             (objectEntries dataByCategory))"

subsection \<open>Fetch\<close>

text \<open>
  Both dashboards run \<open>select('*')\<close> on the table, with no filter, and hand every row to
  each aggregator.
\<close>

record analytics =
  monthlyData :: "MonthlyReportData list"
  categoryData :: "CategoryDistributionData list"
  reportsByDayData :: "ReportsByDayData list"
  locationData :: "LocationHotspotData list"

definition fetchData :: "runtime \<Rightarrow> (int \<Rightarrow> int) \<Rightarrow> issue list \<Rightarrow> analytics" where
  "fetchData rt tz table =
     \<lparr>monthlyData = processMonthlyReports rt table,
      categoryData = processCategoryDistribution table,
      reportsByDayData = processReportsByDay tz table,
      locationData = processLocationHotspots table\<rparr>"

record analyticsAlt =
  monthlyDataAlt :: "MonthlyReportData list"
  categoryDataAlt :: "CategoryCountData list"
  resolutionTimeDataAlt :: "ResolutionTimeData list"
  locationDataAlt :: "LocationHotspotData list"

definition fetchDataAlt :: "runtime \<Rightarrow> issue list \<Rightarrow> analyticsAlt" where
  "fetchDataAlt rt table =
     \<lparr>monthlyDataAlt = processMonthlyReports rt table,
      categoryDataAlt = processCategoryDistributionAlt table,
      resolutionTimeDataAlt = processResolutionTimes table,
      locationDataAlt = processLocationHotspots table\<rparr>"

section \<open>Report Submission Form (ReportModal)\<close>

text \<open>
  The state the submit handler reads: the resolved location (or null), the attached
  photo (or null; a file is known here by its name) and five text fields. The state
  variables \<open>location\<close>, \<open>title\<close>, \<open>category\<close> and \<open>description\<close> carry the suffix
  \<open>_f\<close> here.
\<close>

record geoLocation =
  lat :: rat
  lng :: rat
  name_l :: string

datatype photoFile = File string

text \<open>
  The row handed to the insert: title, category, description, latitude, longitude,
  location_name, image_url, status, street_address, landmark.
\<close>

datatype insertRow =
  InsertRow string string string rat rat string "string option" string string string

text \<open>What the handler does, in the order it does it.\<close>

datatype effect =
    PreventDefault
  | ShowToast toast
  | SetIsSubmitting bool
  | StorageUpload string photoFile
  | StorageGetPublicUrl string
  | InsertIssue insertRow
  | ConsoleError
  | ResetForm
  | OnClose

text \<open>The two calls that reach the backend over the network.\<close>

fun isNetworkCall :: "effect \<Rightarrow> bool" where
  "isNetworkCall (StorageUpload n f) = True"
| "isNetworkCall (InsertIssue r) = True"
| "isNetworkCall e = False"

text \<open>
  What the handler cannot decide by itself: the clock (\<open>Date.now()\<close>, printed in
  decimal), whether the upload and the insert report an error, and the public URL the
  storage gives a file name.
\<close>

record submitEnv =
  now :: string
  uploadError :: bool
  insertError :: bool
  publicUrl :: "string \<Rightarrow> string"

text \<open>\<open>photo.name.split('.').pop()\<close>: what follows the last dot, or the whole name.\<close>

definition fileExt :: "photoFile \<Rightarrow> string" where
  "fileExt f = (case f of File n \<Rightarrow> rev (takeWhile (\<lambda>c. c \<noteq> CHR ''.'') (rev n)))"

definition locationRequired :: toast where
  "locationRequired =
     Toast ''Location Required'' ''Please enable location access and try again.'' True"

definition photoRequired :: toast where
  "photoRequired = Toast ''Photo Required'' ''Please upload a photo of the issue.'' True"

definition missingInformation :: toast where
  "missingInformation =
     Toast ''Missing Information'' ''Please fill in all required fields.'' True"

definition submissionFailed :: "effect list" where
  "submissionFailed =
     [ConsoleError,
      ShowToast (Toast ''Submission Failed'' ''Something went wrong. Please try again.'' True),
      SetIsSubmitting False]"

definition submissionDone :: "effect list" where
  "submissionDone =
     [ShowToast (Toast ''Report Submitted!''
                   ''Thank you for helping improve our community.'' False),
      ResetForm, SetIsSubmitting False, OnClose]"

definition handleSubmit ::
  "submitEnv \<Rightarrow> geoLocation option \<Rightarrow> photoFile option \<Rightarrow>
   string \<Rightarrow> string \<Rightarrow> string \<Rightarrow> string \<Rightarrow> string \<Rightarrow> effect list" where
  "handleSubmit env location_f photo title_f category_f description_f streetAddress landmark =
     PreventDefault #
     (case location_f of
        None \<Rightarrow> [ShowToast locationRequired]
      | Some loc \<Rightarrow>
          if name_l loc = ''Location unavailable'' then [ShowToast locationRequired]
          else
            (case photo of
               None \<Rightarrow> [ShowToast photoRequired]
             | Some ph \<Rightarrow>
                 if title_f = [] \<or> category_f = [] \<or> description_f = [] \<or>
                    streetAddress = [] \<or> landmark = []
                 then [ShowToast missingInformation]
                 else
                   (let fileName = now env @ ''.'' @ fileExt ph
                    in SetIsSubmitting True # StorageUpload fileName ph #
                       (if uploadError env then submissionFailed
                        else
                          StorageGetPublicUrl fileName #
                          InsertIssue
                            (InsertRow title_f category_f description_f (lat loc) (lng loc)
                               (name_l loc) (Some (publicUrl env fileName)) ''new''
                               streetAddress landmark) #
                          (if insertError env then submissionFailed else submissionDone)))))"

text \<open>
  The preconditions in the order the specification lists them, for comparison with the
  handler: each is a test of the form state and the notification it raises.
\<close>

definition locationResolved :: "geoLocation option \<Rightarrow> bool" where
  "locationResolved location_f =
     (case location_f of None \<Rightarrow> False | Some loc \<Rightarrow> name_l loc \<noteq> ''Location unavailable'')"

section \<open>Specification-side notions\<close>






definition lowerChar :: "char \<Rightarrow> char" where
  "lowerChar c =
     (case map_of (zip ''ABCDEFGHIJKLMNOPQRSTUVWXYZ'' ''abcdefghijklmnopqrstuvwxyz'') c of
        Some d \<Rightarrow> d
      | None \<Rightarrow> c)"


text \<open>
  The number a sort key orders by, ascending: the negated field for the descending
  keys, with an absent number counted as 0.
\<close>

definition sortKey :: "string \<Rightarrow> issue \<Rightarrow> int" where
  "sortKey sortBy r =
     (if sortBy = ''popular'' then - (case upvotes_count r of None \<Rightarrow> 0 | Some n \<Rightarrow> n)
      else if sortBy = ''priority'' then - (case priority_score r of None \<Rightarrow> 0 | Some n \<Rightarrow> n)
      else if sortBy = ''oldest'' then created_at r
      else - created_at r)"

text \<open>The common shape of the five reducers, used to reason about them together.\<close>

definition groupStep ::
  "('a \<Rightarrow> string) \<Rightarrow> (string \<Rightarrow> 'v) \<Rightarrow> ('a \<Rightarrow> 'v \<Rightarrow> 'v) \<Rightarrow> 'v object \<Rightarrow> 'a \<Rightarrow> 'v object" where
  "groupStep key init upd acc i =
     modifyProp
       (if getProp acc (key i) = Undefined then setProp acc (key i) (init (key i)) else acc)
       (key i) (upd i)"

text \<open>The issues of the examples.\<close>

definition exampleIssue :: "string \<Rightarrow> string \<Rightarrow> string option \<Rightarrow> string \<Rightarrow> bool \<Rightarrow> int \<Rightarrow> int option \<Rightarrow> issue" where
  "exampleIssue i c l s spam created res =
     \<lparr>issue_id = i, title = ''Report'', description = ''Details'', category = c,
      location_name = l, status = s, priority_score = None, upvotes_count = None,
      is_spam = spam, created_at = created, resolved_at = res\<rparr>"

text \<open>
  The browser of the examples: English (United States), the Gregorian calendar, and a
  time zone \<open>tz\<close> as for \<open>getDay\<close>. \<open>civilYearMonth\<close> gives the year and the month (1 to
  12) of a day number.
\<close>

definition civilYearMonth :: "int \<Rightarrow> int \<times> int" where
  "civilYearMonth z0 =
     (let z = z0 + 719468;
          era = z div 146097;
          doe = z mod 146097;
          yoe = (doe - doe div 1460 + doe div 36524 - doe div 146096) div 365;
          doy = doe - (365 * yoe + yoe div 4 - yoe div 100);
          mp = (5 * doy + 2) div 153;
          m = (if mp < 10 then mp + 3 else mp - 9);
          y = yoe + era * 400
      in (if m \<le> 2 then y + 1 else y, m))"

definition monthNames :: "string list" where
  "monthNames = [''Jan'', ''Feb'', ''Mar'', ''Apr'', ''May'', ''Jun'',
                 ''Jul'', ''Aug'', ''Sep'', ''Oct'', ''Nov'', ''Dec'']"

definition twoDigit :: "nat \<Rightarrow> string" where
  "twoDigit y =
     [''0123456789'' ! ((y mod 100) div 10), ''0123456789'' ! (y mod 10)]"

definition enUS :: "nat \<Rightarrow> nat \<Rightarrow> string" where
  "enUS m y = monthNames ! m @ '' '' @ twoDigit y"

text \<open>
  Its \<open>toLowerCase\<close> is given on the texts of the examples: ASCII texts, where the capital
  letters are folded, and the two texts with a Greek capital sigma (bytes CE A3) of the
  counterexample to the search. After the letters \<open>AB\<close>, at the end of the text, the
  capital sigma becomes the final sigma (CF 82); alone, it becomes the small sigma
  (CF 83).
\<close>

definition capitalSigma :: string where
  "capitalSigma = [CHR 0xCE, CHR 0xA3]"

definition smallSigma :: string where
  "smallSigma = [CHR 0xCF, CHR 0x83]"

definition finalSigma :: string where
  "finalSigma = [CHR 0xCF, CHR 0x82]"

definition exampleLower :: "string \<Rightarrow> string" where
  "exampleLower s =
     (if s = ''AB'' @ capitalSigma then ''ab'' @ finalSigma
      else if s = capitalSigma then smallSigma
      else map lowerChar s)"

definition exampleRuntime :: "(int \<Rightarrow> int) \<Rightarrow> runtime" where
  "exampleRuntime tz =
     \<lparr>toLowerCase = exampleLower,
      localMonth = (\<lambda>t. nat (snd (civilYearMonth (localDay tz t)) - 1)),
      localYear = (\<lambda>t. fst (civilYearMonth (localDay tz t))),
      monthYearText = enUS\<rparr>"

section \<open>The subscription handler and the spam flag\<close>

lemma onPayload_insert_keeps_clean:
  assumes "eventType p = INSERT" "\<forall>r \<in> set (reports s). \<not> is_spam r"
  shows "\<forall>r \<in> set (reports (onPayload p s)). \<not> is_spam r"
  using assms by (simp add: onPayload_def)

lemma onPayload_delete_ignored: "eventType p = DELETE \<Longrightarrow> onPayload p s = s"
  by (simp add: onPayload_def)

text \<open>A feed without UPDATE events keeps a spam-free state spam-free.\<close>

lemma runFeed_without_update_keeps_clean:
  assumes "\<forall>p \<in> set ps. eventType p \<noteq> UPDATE" "\<forall>r \<in> set (reports s). \<not> is_spam r"
  shows "\<forall>r \<in> set (reports (runFeed s ps)). \<not> is_spam r"
  using assms
proof (induction ps arbitrary: s)
  case Nil
  then show ?case by (simp add: runFeed_def)
next
  case (Cons p ps)
  have "\<forall>r \<in> set (reports (onPayload p s)). \<not> is_spam r"
  proof (cases "eventType p")
    case INSERT
    then show ?thesis using Cons.prems(2) by (rule onPayload_insert_keeps_clean)
  next
    case UPDATE
    then show ?thesis using Cons.prems(1) by simp
  next
    case DELETE
    then show ?thesis using Cons.prems(2) by (simp add: onPayload_delete_ignored)
  qed
  moreover have "\<forall>p \<in> set ps. eventType p \<noteq> UPDATE" using Cons.prems(1) by simp
  ultimately have "\<forall>r \<in> set (reports (runFeed (onPayload p s) ps)). \<not> is_spam r"
    by (rule Cons.IH[rotated])
  then show ?case by (simp add: runFeed_def)
qed

text \<open>
  C2. A push INSERT event whose row has \<open>is_spam = true\<close> leaves the state of the view as
  it was: the report list is the same list (the row is not prepended and cannot appear
  through this event) and no notification is raised.
\<close>

theorem insert_spam_leaves_state:
  "eventType p = INSERT \<Longrightarrow> is_spam (new p) \<Longrightarrow> onPayload p s = s"
  by (simp add: onPayload_def)

theorem insert_spam_leaves_state_witness:
  "onPayload
     \<lparr>eventType = INSERT, new = exampleIssue ''7'' ''Graffiti'' None ''new'' True 0 None\<rparr>
     \<lparr>reports = [exampleIssue ''1'' ''Pothole'' None ''new'' False 0 None], toasts = []\<rparr>
   = \<lparr>reports = [exampleIssue ''1'' ''Pothole'' None ''new'' False 0 None], toasts = []\<rparr>"
  using insert_spam_leaves_state
    [of "\<lparr>eventType = INSERT, new = exampleIssue ''7'' ''Graffiti'' None ''new'' True 0 None\<rparr>"
        "\<lparr>reports = [exampleIssue ''1'' ''Pothole'' None ''new'' False 0 None], toasts = []\<rparr>"]
  by (simp add: exampleIssue_def)

text \<open>
  C1. The claim is that no sequence of push events puts a spam-flagged issue into the
  state. The UPDATE branch replaces the issue with the same identifier by the row of the
  event without reading \<open>is_spam\<close>, unlike the INSERT branch: from a state holding the
  single non-spam issue 1, one UPDATE event for issue 1 with \<open>is_spam = true\<close> leaves that
  spam-flagged row in the report list, and the projection shown under the default
  filters holds it.
\<close>

theorem update_event_admits_spam:
  "map is_spam (reports
       \<lparr>reports = [exampleIssue ''1'' ''Pothole'' None ''new'' False 0 None], toasts = []\<rparr>)
     = [False] \<and>
   reports (runFeed
       \<lparr>reports = [exampleIssue ''1'' ''Pothole'' None ''new'' False 0 None], toasts = []\<rparr>
       [\<lparr>eventType = UPDATE, new = exampleIssue ''1'' ''Pothole'' None ''new'' True 0 None\<rparr>])
     = [exampleIssue ''1'' ''Pothole'' None ''new'' True 0 None] \<and>
   is_spam (exampleIssue ''1'' ''Pothole'' None ''new'' True 0 None) \<and>
   filteredReports (exampleRuntime (\<lambda>t. 0)) [] ''all'' ''all'' ''newest''
     (reports (runFeed
       \<lparr>reports = [exampleIssue ''1'' ''Pothole'' None ''new'' False 0 None], toasts = []\<rparr>
       [\<lparr>eventType = UPDATE, new = exampleIssue ''1'' ''Pothole'' None ''new'' True 0 None\<rparr>]))
     = [exampleIssue ''1'' ''Pothole'' None ''new'' True 0 None]"
  by code_simp

section \<open>Filter and sort of the collection view\<close>







lemma set_insertBy: "set (insertBy cmp x xs) = insert x (set xs)"
  by (induction xs) auto

lemma set_jsSort: "set (jsSort cmp xs) = set xs"
  by (induction xs) (simp_all add: jsSort_def set_insertBy)

lemma length_insertBy: "length (insertBy cmp x xs) = Suc (length xs)"
  by (induction xs) auto

lemma length_jsSort: "length (jsSort cmp xs) = length xs"
  by (induction xs) (simp_all add: jsSort_def length_insertBy)

lemma insertBy_insort_key:
  assumes "\<And>a b. cmp a b \<le> 0 \<longleftrightarrow> key a \<le> key b"
  shows "insertBy cmp x xs = insort_key key x xs"
  by (induction xs) (simp_all add: assms)

lemma jsSort_sort_key:
  assumes "\<And>a b. cmp a b \<le> 0 \<longleftrightarrow> (key a :: int) \<le> key b"
  shows "jsSort cmp xs = sort_key key xs"
  by (induction xs) (simp_all add: jsSort_def insertBy_insort_key[OF assms])

lemma compareReports_sortKey: "compareReports sortBy a b = sortKey sortBy a - sortKey sortBy b"
  by (simp add: compareReports_def sortKey_def orZero_def)

lemma jsSort_compareReports:
  "jsSort (compareReports sortBy) xs = sort_key (sortKey sortBy) xs"
  by (rule jsSort_sort_key) (simp add: compareReports_sortKey)








text \<open>
  C4. The sort step orders any list: under \<open>popular\<close> by \<open>upvotes_count\<close> descending
  and under \<open>priority\<close> by \<open>priority_score\<close> descending, an absent number counting as
  0; under \<open>oldest\<close> by \<open>created_at\<close> ascending; under \<open>newest\<close> and every other key
  by \<open>created_at\<close> descending. The elements that compare equal to any given element
  appear in the order they had in the input, and the result is a rearrangement of the
  input.
\<close>

theorem sort_step:
  "sorted_wrt (\<lambda>a b. (case upvotes_count b of None \<Rightarrow> 0 | Some n \<Rightarrow> n)
                    \<le> (case upvotes_count a of None \<Rightarrow> 0 | Some n \<Rightarrow> n))
     (jsSort (compareReports ''popular'') xs) \<and>
   sorted_wrt (\<lambda>a b. (case priority_score b of None \<Rightarrow> 0 | Some n \<Rightarrow> n)
                    \<le> (case priority_score a of None \<Rightarrow> 0 | Some n \<Rightarrow> n))
     (jsSort (compareReports ''priority'') xs) \<and>
   sorted_wrt (\<lambda>a b. created_at a \<le> created_at b) (jsSort (compareReports ''oldest'') xs) \<and>
   (sortBy \<noteq> ''popular'' \<and> sortBy \<noteq> ''priority'' \<and> sortBy \<noteq> ''oldest'' \<longrightarrow>
      sorted_wrt (\<lambda>a b. created_at b \<le> created_at a) (jsSort (compareReports sortBy) xs)) \<and>
   filter (\<lambda>b. compareReports sortBy a b = 0) (jsSort (compareReports sortBy) xs)
     = filter (\<lambda>b. compareReports sortBy a b = 0) xs \<and>
   set (jsSort (compareReports sortBy) xs) = set xs \<and>
   length (jsSort (compareReports sortBy) xs) = length xs"
proof -
  have srt: "sorted (map (sortKey k) (jsSort (compareReports k) xs))" for k
    by (simp add: jsSort_compareReports)
  have 1: "sorted_wrt (\<lambda>a b. (case upvotes_count b of None \<Rightarrow> 0 | Some n \<Rightarrow> n)
                    \<le> (case upvotes_count a of None \<Rightarrow> 0 | Some n \<Rightarrow> n))
     (jsSort (compareReports ''popular'') xs)"
    using srt[of "''popular''"] by (simp add: sorted_map sortKey_def)
  have 2: "sorted_wrt (\<lambda>a b. (case priority_score b of None \<Rightarrow> 0 | Some n \<Rightarrow> n)
                    \<le> (case priority_score a of None \<Rightarrow> 0 | Some n \<Rightarrow> n))
     (jsSort (compareReports ''priority'') xs)"
    using srt[of "''priority''"] by (simp add: sorted_map sortKey_def)
  have 3: "sorted_wrt (\<lambda>a b. created_at a \<le> created_at b) (jsSort (compareReports ''oldest'') xs)"
    using srt[of "''oldest''"] by (simp add: sorted_map sortKey_def)
  have 4: "sortBy \<noteq> ''popular'' \<and> sortBy \<noteq> ''priority'' \<and> sortBy \<noteq> ''oldest'' \<longrightarrow>
      sorted_wrt (\<lambda>a b. created_at b \<le> created_at a) (jsSort (compareReports sortBy) xs)"
  proof (intro impI)
    assume h: "sortBy \<noteq> ''popular'' \<and> sortBy \<noteq> ''priority'' \<and> sortBy \<noteq> ''oldest''"
    have "sortKey sortBy = (\<lambda>r. - created_at r)"
      using h by (auto simp: sortKey_def)
    with srt[of sortBy] show "sorted_wrt (\<lambda>a b. created_at b \<le> created_at a) (jsSort (compareReports sortBy) xs)"
      by (simp add: sorted_map)
  qed
  have "(\<lambda>b. compareReports sortBy a b = 0) = (\<lambda>b. sortKey sortBy b = sortKey sortBy a)"
    by (auto simp: compareReports_sortKey)
  then have 5: "filter (\<lambda>b. compareReports sortBy a b = 0) (jsSort (compareReports sortBy) xs)
     = filter (\<lambda>b. compareReports sortBy a b = 0) xs"
    by (simp add: jsSort_compareReports sort_key_stable)
  show ?thesis using 1 2 3 4 5 by (simp add: set_jsSort length_jsSort)
qed

theorem sort_step_witness:
  "jsSort (compareReports ''newest'')
     [exampleIssue ''1'' ''Pothole'' None ''new'' False 10 None,
      exampleIssue ''2'' ''Graffiti'' None ''new'' False 30 None,
      exampleIssue ''3'' ''Other'' None ''new'' False 10 None]
   = [exampleIssue ''2'' ''Graffiti'' None ''new'' False 30 None,
      exampleIssue ''1'' ''Pothole'' None ''new'' False 10 None,
      exampleIssue ''3'' ''Other'' None ''new'' False 10 None] \<and>
   sorted_wrt (\<lambda>a b. created_at b \<le> created_at a)
     (jsSort (compareReports ''newest'')
        [exampleIssue ''1'' ''Pothole'' None ''new'' False 10 None,
         exampleIssue ''2'' ''Graffiti'' None ''new'' False 30 None,
         exampleIssue ''3'' ''Other'' None ''new'' False 10 None])"
  using sort_step
    [of "[exampleIssue ''1'' ''Pothole'' None ''new'' False 10 None,
          exampleIssue ''2'' ''Graffiti'' None ''new'' False 30 None,
          exampleIssue ''3'' ''Other'' None ''new'' False 10 None]"
        "''newest''" "exampleIssue ''1'' ''Pothole'' None ''new'' False 10 None"]
  by (simp add: jsSort_def compareReports_def exampleIssue_def)

section \<open>Facts about the reducers\<close>

lemma getProp_Undefined_iff:
  "getProp acc k = Undefined \<longleftrightarrow> map_of acc k = None \<and> k \<notin> set objectPrototypeKeys"
  by (simp add: getProp_def split: option.splits)

lemma map_fst_modifyProp: "map fst (modifyProp acc k f) = map fst acc"
  by (induction acc) (auto simp: modifyProp_def)

lemma map_of_modifyProp:
  "map_of (modifyProp acc k f) k' = (if k' = k then map_option f (map_of acc k') else map_of acc k')"
  by (induction acc) (auto simp: modifyProp_def)

lemma modifyProp_absent: "map_of acc k = None \<Longrightarrow> modifyProp acc k f = acc"
  by (induction acc) (auto simp: modifyProp_def split: if_splits)

lemma modifyProp_append:
  "modifyProp (acc @ bs) k f = modifyProp acc k f @ modifyProp bs k f"
  by (simp add: modifyProp_def)

lemma modifyProp_modifyProp:
  "modifyProp (modifyProp acc k f) k g = modifyProp acc k (g \<circ> f)"
  by (induction acc) (auto simp: modifyProp_def)

lemma groupStep_cases:
  "groupStep key init upd acc i =
     (if map_of acc (key i) = None
      then (if key i \<in> set objectPrototypeKeys then acc
            else acc @ [(key i, upd i (init (key i)))])
      else modifyProp acc (key i) (upd i))"
  by (simp add: groupStep_def getProp_Undefined_iff setProp_def modifyProp_append
      modifyProp_absent) (simp add: modifyProp_def)

lemma map_of_groupStep:
  "map_of (groupStep key init upd acc i) k =
     (if k = key i
      then (case map_of acc k of
              Some v \<Rightarrow> Some (upd i v)
            | None \<Rightarrow> if k \<in> set objectPrototypeKeys then None else Some (upd i (init k)))
      else map_of acc k)"
  by (auto simp: groupStep_cases map_of_modifyProp map_add_def split: option.splits)

lemma distinct_groupStep:
  "distinct (map fst acc) \<Longrightarrow> distinct (map fst (groupStep key init upd acc i))"
  by (auto simp: groupStep_cases map_fst_modifyProp map_of_eq_None_iff)

lemma foldl_groupStep_distinct:
  "distinct (map fst acc) \<Longrightarrow> distinct (map fst (foldl (groupStep key init upd) acc issues))"
  by (induction issues arbitrary: acc) (simp_all add: distinct_groupStep)

lemma map_of_foldl_groupStep:
  "map_of (foldl (groupStep key init upd) [] issues) k =
     (if k \<in> key ` set issues \<and> k \<notin> set objectPrototypeKeys
      then Some (foldl (\<lambda>b i. upd i b) (init k) (filter (\<lambda>i. key i = k) issues))
      else None)"
proof (induction issues rule: rev_induct)
  case Nil
  show ?case by simp
next
  case (snoc x xs)
  show ?case
  proof (cases "k = key x")
    case False
    then show ?thesis using snoc by (auto simp: map_of_groupStep)
  next
    case True
    show ?thesis
    proof (cases "k \<in> set objectPrototypeKeys")
      case True
      with \<open>k = key x\<close> show ?thesis using snoc by (simp add: map_of_groupStep)
    next
      case False
      show ?thesis
      proof (cases "k \<in> key ` set xs")
        case True
        with False \<open>k = key x\<close> show ?thesis using snoc by (simp add: map_of_groupStep)
      next
        case notin: False
        then have "filter (\<lambda>i. key i = k) xs = []" by (auto simp: filter_empty_conv)
        with notin False \<open>k = key x\<close> show ?thesis using snoc by (simp add: map_of_groupStep)
      qed
    qed
  qed
qed

lemma keys_foldl_groupStep:
  "fst ` set (foldl (groupStep key init upd) [] issues) =
     {k \<in> key ` set issues. k \<notin> set objectPrototypeKeys}"
proof -
  have "k \<in> fst ` set (foldl (groupStep key init upd) [] issues) \<longleftrightarrow>
        k \<in> {k \<in> key ` set issues. k \<notin> set objectPrototypeKeys}" for k
  proof -
    have "k \<in> fst ` set (foldl (groupStep key init upd) [] issues) \<longleftrightarrow>
          map_of (foldl (groupStep key init upd) [] issues) k \<noteq> None"
      by (simp add: map_of_eq_None_iff)
    then show ?thesis by (simp add: map_of_foldl_groupStep)
  qed
  then show ?thesis by blast
qed

lemma set_objectEntries: "set (objectEntries acc) = set acc"
  by (auto simp: objectEntries_def)

lemma length_objectEntries: "length (objectEntries acc) = length acc"
  by (simp add: objectEntries_def sum_length_filter_compl case_prod_unfold)

lemma distinct_objectEntries:
  assumes "distinct (map fst acc)"
  shows "distinct (map fst (objectEntries acc))"
proof -
  from assms have d: "distinct acc" and inj: "inj_on fst (set acc)"
    by (simp_all add: distinct_map)
  have "distinct (objectEntries acc)"
    using d by (auto simp: objectEntries_def)
  then show ?thesis
    using inj by (simp add: distinct_map set_objectEntries)
qed

lemma map_of_objectEntries:
  "distinct (map fst acc) \<Longrightarrow> map_of (objectEntries acc) = map_of acc"
  by (simp add: map_of_inject_set distinct_objectEntries set_objectEntries)

lemma sum_list_insort_key:
  "sum_list (map f (insort_key g x xs)) = (f x :: nat) + sum_list (map f xs)"
  by (induction xs) simp_all

lemma sum_list_sort_key:
  "sum_list (map f (sort_key g xs)) = (sum_list (map f xs) :: nat)"
  by (induction xs) (simp_all add: sum_list_insort_key)

lemma sum_list_filter_split:
  "sum_list (map f (filter P xs)) + sum_list (map f (filter (\<lambda>x. \<not> P x) xs)) =
     (sum_list (map f xs) :: nat)"
  by (induction xs) simp_all

lemma sum_list_objectEntries:
  "sum_list (map f (objectEntries acc)) = (sum_list (map f acc) :: nat)"
  by (simp add: objectEntries_def sum_list_sort_key sum_list_filter_split case_prod_unfold)

lemma sum_list_insertBy:
  "sum_list (map f (insertBy cmp x xs)) = (f x :: nat) + sum_list (map f xs)"
  by (induction xs) simp_all

lemma sum_list_jsSort:
  "sum_list (map f (jsSort cmp xs)) = (sum_list (map f xs) :: nat)"
  by (induction xs) (simp_all add: jsSort_def sum_list_insertBy)

text \<open>Counting buckets: a field that starts at 0 and goes up by one with each issue.\<close>

lemma sum_list_modifyProp:
  assumes "distinct (map fst acc)" "map_of acc k \<noteq> None" "\<And>v. c (f v) = Suc (c v)"
  shows "sum_list (map (\<lambda>(k, v). c v) (modifyProp acc k f)) =
         Suc (sum_list (map (\<lambda>(k, v). c v) acc))"
  using assms(1,2)
proof (induction acc)
  case Nil
  then show ?case by simp
next
  case (Cons a acc)
  obtain k' v' where a: "a = (k', v')" by (cases a)
  show ?case
  proof (cases "k' = k")
    case True
    with Cons.prems a have "map_of acc k = None"
      by (auto simp: map_of_eq_None_iff)
    then have "modifyProp acc k f = acc" by (rule modifyProp_absent)
    then have "modifyProp (a # acc) k f = (k, f v') # acc"
      using a True by (simp add: modifyProp_def)
    then show ?thesis using a assms(3) by simp
  next
    case False
    with Cons.prems a have "distinct (map fst acc)" "map_of acc k \<noteq> None" by auto
    then have "sum_list (map (\<lambda>(k, v). c v) (modifyProp acc k f)) =
         Suc (sum_list (map (\<lambda>(k, v). c v) acc))" by (rule Cons.IH)
    moreover have "modifyProp (a # acc) k f = a # modifyProp acc k f"
      using a False by (simp add: modifyProp_def)
    ultimately show ?thesis by simp
  qed
qed

lemma sum_list_foldl_groupStep:
  assumes c0: "\<And>k. c (init k) = 0" and c1: "\<And>i v. c (upd i v) = Suc (c v)"
  shows "sum_list (map (\<lambda>(k, v). c v) (foldl (groupStep key init upd) [] issues)) =
         length (filter (\<lambda>i. key i \<notin> set objectPrototypeKeys) issues)"
proof (induction issues rule: rev_induct)
  case Nil
  show ?case by simp
next
  case (snoc x xs)
  define R where "R = foldl (groupStep key init upd) [] xs"
  have d: "distinct (map fst R)" by (simp add: R_def foldl_groupStep_distinct)
  have IH: "sum_list (map (\<lambda>(k, v). c v) R) =
            length (filter (\<lambda>i. key i \<notin> set objectPrototypeKeys) xs)"
    using snoc by (simp add: R_def)
  have step: "foldl (groupStep key init upd) [] (xs @ [x]) = groupStep key init upd R x"
    by (simp add: R_def)
  show ?case
  proof (cases "map_of R (key x) = None")
    case True
    then show ?thesis unfolding step using IH by (simp add: groupStep_cases c0 c1)
  next
    case False
    then have "key x \<in> fst ` set R" by (simp add: map_of_eq_None_iff)
    then have np: "key x \<notin> set objectPrototypeKeys"
      unfolding R_def keys_foldl_groupStep by simp
    have "groupStep key init upd R x = modifyProp R (key x) (upd x)"
      using False by (auto simp: groupStep_cases)
    then show ?thesis
      unfolding step using sum_list_modifyProp[OF d False, of c "upd x"] c1 IH np by simp
  qed
qed

section \<open>Day-of-week aggregation\<close>

lemma dayStep_groupStep:
  "dayStep tz =
     groupStep (\<lambda>i. daysOfWeek ! getDay tz (created_at i)) (\<lambda>d. \<lparr>day = d, count_d = 0\<rparr>)
       (\<lambda>i b. b\<lparr>count_d := count_d b + 1\<rparr>)"
  by (intro ext) (simp add: dayStep_def groupStep_def Let_def)

lemma getDay_less: "getDay tz t < 7"
  by (simp add: getDay_def nat_less_iff)

lemma daysOfWeek_not_inherited: "d \<in> set daysOfWeek \<Longrightarrow> d \<notin> set objectPrototypeKeys"
  by (auto simp: daysOfWeek_def objectPrototypeKeys_def)

lemma distinct_daysOfWeek: "distinct daysOfWeek" and length_daysOfWeek: "length daysOfWeek = 7"
  by (simp_all add: daysOfWeek_def)

lemma dayName_eq_iff:
  "n < 7 \<Longrightarrow> daysOfWeek ! getDay tz t = daysOfWeek ! n \<longleftrightarrow> getDay tz t = n"
  using getDay_less[of tz t]
  by (simp add: nth_eq_iff_index_eq distinct_daysOfWeek length_daysOfWeek)

lemma foldl_count_d:
  "foldl (\<lambda>b i. b\<lparr>count_d := Suc (count_d b)\<rparr>) b xs = b\<lparr>count_d := count_d b + length xs\<rparr>"
  by (induction xs arbitrary: b) simp_all

lemma day_bucket:
  assumes "n < 7"
  shows "(case getProp (foldl (dayStep tz) [] issues) (daysOfWeek ! n) of
            Own b \<Rightarrow> b
          | _ \<Rightarrow> \<lparr>day = daysOfWeek ! n, count_d = 0\<rparr>) =
         \<lparr>day = daysOfWeek ! n,
          count_d = length (filter (\<lambda>i. getDay tz (created_at i) = n) issues)\<rparr>"
proof -
  have np: "daysOfWeek ! n \<notin> set objectPrototypeKeys"
    using assms by (simp add: daysOfWeek_not_inherited length_daysOfWeek)
  have f: "filter (\<lambda>i. daysOfWeek ! getDay tz (created_at i) = daysOfWeek ! n) issues =
           filter (\<lambda>i. getDay tz (created_at i) = n) issues"
    using assms by (simp add: dayName_eq_iff)
  show ?thesis
  proof (cases "daysOfWeek ! n \<in> (\<lambda>i. daysOfWeek ! getDay tz (created_at i)) ` set issues")
    case True
    then show ?thesis
      using np by (simp add: getProp_def dayStep_groupStep map_of_foldl_groupStep f foldl_count_d)
  next
    case False
    then have "filter (\<lambda>i. daysOfWeek ! getDay tz (created_at i) = daysOfWeek ! n) issues = []"
      unfolding filter_empty_conv image_iff by metis
    then have "filter (\<lambda>i. getDay tz (created_at i) = n) issues = []"
      by (simp only: f)
    then show ?thesis
      using False np by (simp add: getProp_def dayStep_groupStep map_of_foldl_groupStep)
  qed
qed

lemma processReportsByDay_eq:
  "processReportsByDay tz issues =
     map (\<lambda>n. \<lparr>day = daysOfWeek ! n,
                count_d = length (filter (\<lambda>i. getDay tz (created_at i) = n) issues)\<rparr>) [0..<7]"
proof -
  define F where "F = (\<lambda>d. case getProp (foldl (dayStep tz) [] issues) d of
                               Own b \<Rightarrow> b
                             | _ \<Rightarrow> \<lparr>day = d, count_d = 0\<rparr>)"
  have dw: "daysOfWeek = map ((!) daysOfWeek) [0..<7]"
    using map_nth[of daysOfWeek] by (simp add: length_daysOfWeek)
  have "processReportsByDay tz issues = map F daysOfWeek"
    by (simp add: processReportsByDay_def F_def)
  also have "\<dots> = map F (map ((!) daysOfWeek) [0..<7])"
    by (rule arg_cong[OF dw])
  also have "\<dots> = map (\<lambda>n. F (daysOfWeek ! n)) [0..<7]"
    by (simp only: map_map o_def)
  also have "\<dots> = map (\<lambda>n. \<lparr>day = daysOfWeek ! n,
                count_d = length (filter (\<lambda>i. getDay tz (created_at i) = n) issues)\<rparr>) [0..<7]"
    by (rule map_cong) (simp_all add: F_def day_bucket)
  finally show ?thesis .
qed

lemma sum_list_indicator:
  "a < n \<Longrightarrow> sum_list (map (\<lambda>k. if a = k then 1 else 0) [0..<n]) = (1::nat)"
  by (induction n) (auto simp: less_Suc_eq)

lemma sum_list_indicator_zero:
  "\<not> a < n \<Longrightarrow> sum_list (map (\<lambda>k. if a = k then 1 else 0) [0..<n]) = (0::nat)"
  by (induction n) (auto simp: less_Suc_eq)

lemma sum_list_partition_count:
  assumes "\<And>i. g i < n"
  shows "sum_list (map (\<lambda>k. length (filter (\<lambda>i. g i = k) xs)) [0..<n]) = length xs"
proof (induction xs)
  case Nil
  show ?case by simp
next
  case (Cons x xs)
  have "sum_list (map (\<lambda>k. length (filter (\<lambda>i. g i = k) (x # xs))) [0..<n]) =
        sum_list (map (\<lambda>k. (if g x = k then 1 else 0) + length (filter (\<lambda>i. g i = k) xs)) [0..<n])"
    by (intro arg_cong[where f = sum_list] map_cong) simp_all
  also have "\<dots> = sum_list (map (\<lambda>k. if g x = k then 1 else 0) [0..<n]) +
                  sum_list (map (\<lambda>k. length (filter (\<lambda>i. g i = k) xs)) [0..<n])"
    by (simp add: sum_list_addf)
  also have "\<dots> = 1 + length xs"
    using assms[of x] Cons.IH by (simp add: sum_list_indicator)
  finally show ?case by simp
qed

text \<open>
  C5. For every issue list the day-of-week aggregation returns seven buckets named Sun,
  Mon, Tue, Wed, Thu, Fri, Sat in this order; the bucket of a day holds the number of
  issues created on that weekday (0 when there is none); the seven counts add up to the
  number of input issues.
\<close>

theorem reports_by_day_buckets:
  "length (processReportsByDay tz issues) = 7 \<and>
   map day (processReportsByDay tz issues) =
     [''Sun'', ''Mon'', ''Tue'', ''Wed'', ''Thu'', ''Fri'', ''Sat''] \<and>
   map count_d (processReportsByDay tz issues) =
     map (\<lambda>n. length (filter (\<lambda>i. getDay tz (created_at i) = n) issues)) [0..<7] \<and>
   sum_list (map count_d (processReportsByDay tz issues)) = length issues"
proof -
  have 1: "length (processReportsByDay tz issues) = 7"
    by (simp add: processReportsByDay_eq)
  have "map day (processReportsByDay tz issues) = map (\<lambda>n. daysOfWeek ! n) [0..<7]"
    by (simp add: processReportsByDay_eq o_def)
  also have "\<dots> = daysOfWeek"
    using map_nth[of daysOfWeek] by (simp add: length_daysOfWeek)
  finally have 2: "map day (processReportsByDay tz issues) =
     [''Sun'', ''Mon'', ''Tue'', ''Wed'', ''Thu'', ''Fri'', ''Sat'']"
    by (simp add: daysOfWeek_def)
  have 3: "map count_d (processReportsByDay tz issues) =
     map (\<lambda>n. length (filter (\<lambda>i. getDay tz (created_at i) = n) issues)) [0..<7]"
    by (simp add: processReportsByDay_eq o_def)
  have 4: "sum_list (map count_d (processReportsByDay tz issues)) = length issues"
    unfolding 3 by (rule sum_list_partition_count) (rule getDay_less)
  from 1 2 3 4 show ?thesis by blast
qed

section \<open>Monthly totals\<close>

lemma entry_foldl_groupStep:
  assumes "(k, v) \<in> set (foldl (groupStep key init upd) [] issues)"
  shows "v = foldl (\<lambda>b i. upd i b) (init k) (filter (\<lambda>i. key i = k) issues)"
    and "k \<in> key ` set issues" and "k \<notin> set objectPrototypeKeys"
proof -
  have "distinct (map fst (foldl (groupStep key init upd) [] issues))"
    by (simp add: foldl_groupStep_distinct)
  with assms have "map_of (foldl (groupStep key init upd) [] issues) k = Some v"
    by simp
  then have "(if k \<in> key ` set issues \<and> k \<notin> set objectPrototypeKeys
      then Some (foldl (\<lambda>b i. upd i b) (init k) (filter (\<lambda>i. key i = k) issues))
      else None) = Some v"
    by (simp only: map_of_foldl_groupStep)
  then show "v = foldl (\<lambda>b i. upd i b) (init k) (filter (\<lambda>i. key i = k) issues)"
    and "k \<in> key ` set issues" and "k \<notin> set objectPrototypeKeys"
    by (simp_all split: if_splits)
qed

lemma monthlyStep_groupStep:
  "monthlyStep rt =
     groupStep (\<lambda>i. formatMonth rt (created_at i))
       (\<lambda>m. \<lparr>month = m, total = 0, resolved = 0\<rparr>)
       (\<lambda>i b. if status i = ''resolved''
              then b\<lparr>total := total b + 1, resolved := resolved b + 1\<rparr>
              else b\<lparr>total := total b + 1\<rparr>)"
  by (intro ext) (simp add: monthlyStep_def groupStep_def Let_def modifyProp_modifyProp o_def)

lemma foldl_monthly:
  "foldl (\<lambda>b i. if status i = ''resolved''
              then b\<lparr>total := total b + 1, resolved := resolved b + 1\<rparr>
              else b\<lparr>total := total b + 1\<rparr>) b xs =
   b\<lparr>total := total b + length xs,
     resolved := resolved b + length (filter (\<lambda>i. status i = ''resolved'') xs)\<rparr>"
  by (induction xs arbitrary: b) simp_all

lemma monthly_entry:
  assumes "(k, v) \<in> set (foldl (monthlyStep rt) [] issues)"
  shows "v = \<lparr>month = k,
              total = length (filter (\<lambda>i. formatMonth rt (created_at i) = k) issues),
              resolved = length (filter (\<lambda>i. formatMonth rt (created_at i) = k \<and>
                                             status i = ''resolved'') issues)\<rparr>"
    and "k \<in> (\<lambda>i. formatMonth rt (created_at i)) ` set issues"
  using entry_foldl_groupStep(1,2)[OF assms[unfolded monthlyStep_groupStep]]
  by (simp_all add: foldl_monthly conj_commute)

lemma monthly_keys:
  assumes "\<And>m y. monthYearText rt m y \<notin> set objectPrototypeKeys"
  shows "fst ` set (foldl (monthlyStep rt) [] issues) =
     (\<lambda>i. formatMonth rt (created_at i)) ` set issues"
  unfolding monthlyStep_groupStep keys_foldl_groupStep
  by (auto simp: formatMonth_def assms)

lemma monthly_month_is_key:
  "map month (processMonthlyReports rt issues) =
     map fst (objectEntries (foldl (monthlyStep rt) [] issues))"
  unfolding processMonthlyReports_def objectValues_def map_map
proof (rule map_cong[OF refl])
  fix e assume "e \<in> set (objectEntries (foldl (monthlyStep rt) [] issues))"
  then have "(fst e, snd e) \<in> set (foldl (monthlyStep rt) [] issues)"
    by (simp add: set_objectEntries)
  from monthly_entry(1)[OF this] show "(month \<circ> snd) e = fst e" by simp
qed

lemma monthly_bucket:
  assumes "b \<in> set (processMonthlyReports rt issues)"
  shows "total b = length (filter (\<lambda>i. formatMonth rt (created_at i) = month b) issues)"
    and "resolved b = length (filter (\<lambda>i. formatMonth rt (created_at i) = month b \<and>
                                          status i = ''resolved'') issues)"
    and "0 < total b"
proof -
  from assms obtain k where kb: "(k, b) \<in> set (foldl (monthlyStep rt) [] issues)"
    by (auto simp: processMonthlyReports_def objectValues_def set_objectEntries)
  note e = monthly_entry[OF kb]
  from e(2) have "filter (\<lambda>i. formatMonth rt (created_at i) = k) issues \<noteq> []"
    by (auto simp: filter_empty_conv)
  then have pos: "0 < length (filter (\<lambda>i. formatMonth rt (created_at i) = k) issues)"
    by simp
  show "total b = length (filter (\<lambda>i. formatMonth rt (created_at i) = month b) issues)"
    by (simp add: e(1))
  show "resolved b = length (filter (\<lambda>i. formatMonth rt (created_at i) = month b \<and>
                                          status i = ''resolved'') issues)"
    by (simp add: e(1))
  show "0 < total b"
    using pos by (simp add: e(1))
qed

text \<open>
  Where the texts of the locale tell the months and the two-digit years apart, as those
  of every locale do, the bucket of an issue counts the issues of its month and of its
  two-digit year.
\<close>

lemma monthly_groups_by_month_and_year:
  assumes inj: "\<And>m y m' y'. m < 12 \<Longrightarrow> m' < 12 \<Longrightarrow> y < 100 \<Longrightarrow> y' < 100 \<Longrightarrow>
                  monthYearText rt m y = monthYearText rt m' y' \<Longrightarrow> m = m' \<and> y = y'"
    and range: "\<And>j. j \<in> set issues \<Longrightarrow> localMonth rt (created_at j) < 12"
    and b: "b \<in> set (processMonthlyReports rt issues)"
    and i: "i \<in> set issues" "month b = formatMonth rt (created_at i)"
  shows "total b =
           length (filter (\<lambda>j. localMonth rt (created_at j) = localMonth rt (created_at i) \<and>
                               localYear rt (created_at j) mod 100 =
                               localYear rt (created_at i) mod 100) issues)"
proof -
  have "formatMonth rt (created_at j) = month b \<longleftrightarrow>
        localMonth rt (created_at j) = localMonth rt (created_at i) \<and>
        localYear rt (created_at j) mod 100 = localYear rt (created_at i) mod 100"
    if j: "j \<in> set issues" for j
  proof
    assume "formatMonth rt (created_at j) = month b"
    then have "monthYearText rt (localMonth rt (created_at j))
                 (nat (localYear rt (created_at j) mod 100)) =
               monthYearText rt (localMonth rt (created_at i))
                 (nat (localYear rt (created_at i) mod 100))"
      by (simp add: i(2) formatMonth_def)
    from inj[OF range[OF j] range[OF i(1)] _ _ this]
    have "localMonth rt (created_at j) = localMonth rt (created_at i) \<and>
          nat (localYear rt (created_at j) mod 100) = nat (localYear rt (created_at i) mod 100)"
      by (simp add: nat_less_iff)
    then show "localMonth rt (created_at j) = localMonth rt (created_at i) \<and>
        localYear rt (created_at j) mod 100 = localYear rt (created_at i) mod 100"
      by (simp add: nat_eq_iff)
  next
    assume "localMonth rt (created_at j) = localMonth rt (created_at i) \<and>
        localYear rt (created_at j) mod 100 = localYear rt (created_at i) mod 100"
    then show "formatMonth rt (created_at j) = month b"
      by (simp add: i(2) formatMonth_def)
  qed
  then have "filter (\<lambda>j. formatMonth rt (created_at j) = month b) issues =
        filter (\<lambda>j. localMonth rt (created_at j) = localMonth rt (created_at i) \<and>
                     localYear rt (created_at j) mod 100 =
                     localYear rt (created_at i) mod 100) issues"
    by (intro filter_cong refl)
  with monthly_bucket(1)[OF b] show ?thesis by simp
qed

text \<open>
  The browser of the examples. Its texts are not names of members of
  \<open>Object.prototype\<close>, and they tell the twelve months and the hundred two-digit years
  apart.
\<close>

lemma enUS_not_inherited: "enUS m y \<notin> set objectPrototypeKeys"
proof
  assume "enUS m y \<in> set objectPrototypeKeys"
  moreover have "\<forall>k \<in> set objectPrototypeKeys. CHR '' '' \<notin> set k"
    by (simp add: objectPrototypeKeys_def)
  moreover have "CHR '' '' \<in> set (enUS m y)"
    by (simp add: enUS_def)
  ultimately show False by blast
qed

lemma length_monthNames: "m < 12 \<Longrightarrow> length (monthNames ! m) = 3"
proof -
  have "list_all (\<lambda>s. length s = 3) monthNames"
    by (simp add: monthNames_def)
  moreover assume "m < 12"
  ultimately show ?thesis
    by (simp add: list_all_length monthNames_def)
qed

lemma twoDigit_inj: "y < 100 \<Longrightarrow> y' < 100 \<Longrightarrow> twoDigit y = twoDigit y' \<Longrightarrow> y = y'"
proof -
  assume y: "y < 100" "y' < 100" and e: "twoDigit y = twoDigit y'"
  have d: "distinct ''0123456789''" by simp
  have l: "y div 10 < length ''0123456789''" "y' div 10 < length ''0123456789''"
    "y mod 10 < length ''0123456789''" "y' mod 10 < length ''0123456789''"
    using y by simp_all
  from e y have "''0123456789'' ! (y div 10) = ''0123456789'' ! (y' div 10)"
    and "''0123456789'' ! (y mod 10) = ''0123456789'' ! (y' mod 10)"
    by (simp_all add: twoDigit_def)
  then have "y div 10 = y' div 10" "y mod 10 = y' mod 10"
    using nth_eq_iff_index_eq[OF d l(1,2)] nth_eq_iff_index_eq[OF d l(3,4)] by blast+
  then show "y = y'"
    by (metis div_mult_mod_eq)
qed

lemma enUS_inj:
  assumes "m < 12" "m' < 12" "y < 100" "y' < 100" "enUS m y = enUS m' y'"
  shows "m = m' \<and> y = y'"
proof -
  from assms(5) have "monthNames ! m @ ('' '' @ twoDigit y) = monthNames ! m' @ ('' '' @ twoDigit y')"
    by (simp add: enUS_def)
  moreover have "length (monthNames ! m) = length (monthNames ! m')"
    using assms(1,2) by (simp add: length_monthNames)
  ultimately have n: "monthNames ! m = monthNames ! m'" and t: "twoDigit y = twoDigit y'"
    by simp_all
  have "distinct monthNames" "length monthNames = 12"
    by (simp_all add: monthNames_def)
  with n assms(1,2) have "m = m'"
    by (simp add: nth_eq_iff_index_eq)
  moreover from t assms(3,4) have "y = y'" by (rule twoDigit_inj[rotated 2])
  ultimately show ?thesis by simp
qed

text \<open>
  The example does not depend on the time zone of the browser: an offset of at most 14
  hours either way leaves both instants in January 2024.
\<close>

lemma offset_div_day:
  assumes "- 50400000 \<le> (o_ms :: int)" "o_ms \<le> 50400000"
  shows "o_ms div 86400000 = - 1 \<or> o_ms div 86400000 = 0"
proof (cases "0 \<le> o_ms")
  case True
  with assms(2) have "o_ms div 86400000 = 0" by (intro div_pos_pos_trivial) simp_all
  then show ?thesis by simp
next
  case False
  with assms(1) have "o_ms div 86400000 = - 1"
    by (intro int_div_pos_eq[where r = "o_ms + 86400000"]) simp_all
  then show ?thesis by simp
qed

lemma localDay_near_midnight:
  assumes "- 50400000 \<le> tz (d * 86400000)" "tz (d * 86400000) \<le> 50400000"
  shows "localDay tz (d * 86400000) = d - 1 \<or> localDay tz (d * 86400000) = d"
proof -
  have "(d * 86400000 + tz (d * 86400000)) div 86400000 = d + tz (d * 86400000) div 86400000"
    by simp
  with offset_div_day[OF assms] show ?thesis
    unfolding localDay_def by auto
qed

lemma january_2024:
  "civilYearMonth 19726 = (2024, 1)" "civilYearMonth 19727 = (2024, 1)"
  "civilYearMonth 19731 = (2024, 1)" "civilYearMonth 19732 = (2024, 1)"
  by code_simp+

lemma formatMonth_january_2024:
  "civilYearMonth (localDay tz t) = (2024, 1) \<Longrightarrow> formatMonth (exampleRuntime tz) t = ''Jan 24''"
  by (simp add: formatMonth_def exampleRuntime_def enUS_def monthNames_def twoDigit_def)

lemma monthly_example_any_zone:
  assumes "\<And>t. - 50400000 \<le> tz t \<and> tz t \<le> 50400000"
  shows "processMonthlyReports (exampleRuntime tz)
     [exampleIssue ''1'' ''Pothole'' None ''new'' False 1704412800000 None,
      exampleIssue ''2'' ''Pothole'' None ''resolved'' False 1704844800000 (Some 1705017600000)]
     = [\<lparr>month = ''Jan 24'', total = 2, resolved = 1\<rparr>]"
proof -
  have "localDay tz (19727 * 86400000) = 19727 - 1 \<or> localDay tz (19727 * 86400000) = 19727"
    using assms by (intro localDay_near_midnight) simp_all
  then have "civilYearMonth (localDay tz 1704412800000) = (2024, 1)"
    by (auto simp: january_2024)
  then have f1: "formatMonth (exampleRuntime tz) 1704412800000 = ''Jan 24''"
    by (rule formatMonth_january_2024)
  have "localDay tz (19732 * 86400000) = 19732 - 1 \<or> localDay tz (19732 * 86400000) = 19732"
    using assms by (intro localDay_near_midnight) simp_all
  then have "civilYearMonth (localDay tz 1704844800000) = (2024, 1)"
    by (auto simp: january_2024)
  then have f2: "formatMonth (exampleRuntime tz) 1704844800000 = ''Jan 24''"
    by (rule formatMonth_january_2024)
  have ni: "\<not> isArrayIndex ''Jan 24''"
    by (simp add: isArrayIndex_def isDigit_def)
  have s1: "monthlyStep (exampleRuntime tz) []
        (exampleIssue ''1'' ''Pothole'' None ''new'' False 1704412800000 None)
      = [(''Jan 24'', \<lparr>month = ''Jan 24'', total = Suc 0, resolved = 0\<rparr>)]"
    by (simp add: monthlyStep_def exampleIssue_def f1 getProp_def setProp_def modifyProp_def
        objectPrototypeKeys_def Let_def)
  have s2: "monthlyStep (exampleRuntime tz)
        [(''Jan 24'', \<lparr>month = ''Jan 24'', total = Suc 0, resolved = 0\<rparr>)]
        (exampleIssue ''2'' ''Pothole'' None ''resolved'' False 1704844800000 (Some 1705017600000))
      = [(''Jan 24'', \<lparr>month = ''Jan 24'', total = 2, resolved = 1\<rparr>)]"
    by (simp add: monthlyStep_def exampleIssue_def f2 getProp_def setProp_def modifyProp_def
        objectPrototypeKeys_def Let_def)
  have "foldl (monthlyStep (exampleRuntime tz)) []
     [exampleIssue ''1'' ''Pothole'' None ''new'' False 1704412800000 None,
      exampleIssue ''2'' ''Pothole'' None ''resolved'' False 1704844800000 (Some 1705017600000)]
     = [(''Jan 24'', \<lparr>month = ''Jan 24'', total = 2, resolved = 1\<rparr>)]"
    by (simp only: foldl.simps s1 s2)
  then show ?thesis
    by (simp add: processMonthlyReports_def objectValues_def objectEntries_def ni)
qed

text \<open>
  C7. The monthly aggregation has one bucket for each month label that some input issue
  has, and no other bucket. The label of an issue is the text the locale prints for the
  month of \<open>created_at\<close> and the last two digits of its year, with the short month name
  (the texts of a locale are never names of members of \<open>Object.prototype\<close>). A bucket's
  total is the number of issues with its label, at least one, and its resolved count the
  number of those with status \<open>resolved\<close>. In the English (United States) locale, for
  the two Pothole issues created on 2024-01-05 and 2024-01-10 (instants 1704412800000
  and 1704844800000, read in UTC), the second one resolved, the result is the single
  bucket \<open>Jan 24\<close> with total 2 and resolved 1 (and so it is in every time zone,
  \<open>monthly_example_any_zone\<close>); an issue created on 2023-07-15 (instant 1689379200000)
  gets a bucket of its own, \<open>Jul 23\<close>.
\<close>

theorem monthly_buckets:
  assumes "\<And>m y. monthYearText rt m y \<notin> set objectPrototypeKeys"
  shows
  "distinct (map month (processMonthlyReports rt issues)) \<and>
   set (map month (processMonthlyReports rt issues)) =
     (\<lambda>i. monthYearText rt (localMonth rt (created_at i))
             (nat (localYear rt (created_at i) mod 100))) ` set issues \<and>
   (\<forall>b \<in> set (processMonthlyReports rt issues).
      0 < total b \<and>
      total b = length (filter (\<lambda>i. monthYearText rt (localMonth rt (created_at i))
                                      (nat (localYear rt (created_at i) mod 100)) = month b)
                          issues) \<and>
      resolved b = length (filter (\<lambda>i. monthYearText rt (localMonth rt (created_at i))
                                         (nat (localYear rt (created_at i) mod 100)) = month b \<and>
                                        status i = ''resolved'') issues)) \<and>
   processMonthlyReports (exampleRuntime (\<lambda>t. 0))
     [exampleIssue ''1'' ''Pothole'' None ''new'' False 1704412800000 None,
      exampleIssue ''2'' ''Pothole'' None ''resolved'' False 1704844800000 (Some 1705017600000)]
     = [\<lparr>month = ''Jan 24'', total = 2, resolved = 1\<rparr>] \<and>
   processMonthlyReports (exampleRuntime (\<lambda>t. 0))
     [exampleIssue ''0'' ''Graffiti'' None ''new'' False 1689379200000 None,
      exampleIssue ''1'' ''Pothole'' None ''new'' False 1704412800000 None,
      exampleIssue ''2'' ''Pothole'' None ''resolved'' False 1704844800000 (Some 1705017600000)]
     = [\<lparr>month = ''Jul 23'', total = 1, resolved = 0\<rparr>,
        \<lparr>month = ''Jan 24'', total = 2, resolved = 1\<rparr>]"
proof -
  let ?R = "foldl (monthlyStep rt) [] issues"
  have d: "distinct (map fst ?R)"
    by (simp add: monthlyStep_groupStep foldl_groupStep_distinct)
  have 1: "distinct (map month (processMonthlyReports rt issues))"
    unfolding monthly_month_is_key using d by (rule distinct_objectEntries)
  have "set (map month (processMonthlyReports rt issues)) =
     (\<lambda>i. formatMonth rt (created_at i)) ` set issues"
    unfolding monthly_month_is_key
    by (simp add: set_objectEntries monthly_keys[OF assms])
  then have 2: "set (map month (processMonthlyReports rt issues)) =
     (\<lambda>i. monthYearText rt (localMonth rt (created_at i))
             (nat (localYear rt (created_at i) mod 100))) ` set issues"
    by (simp only: formatMonth_def)
  have "\<forall>b \<in> set (processMonthlyReports rt issues).
      0 < total b \<and>
      total b = length (filter (\<lambda>i. formatMonth rt (created_at i) = month b) issues) \<and>
      resolved b = length (filter (\<lambda>i. formatMonth rt (created_at i) = month b \<and>
                                        status i = ''resolved'') issues)"
    using monthly_bucket by blast
  then have 3: "\<forall>b \<in> set (processMonthlyReports rt issues).
      0 < total b \<and>
      total b = length (filter (\<lambda>i. monthYearText rt (localMonth rt (created_at i))
                                      (nat (localYear rt (created_at i) mod 100)) = month b)
                          issues) \<and>
      resolved b = length (filter (\<lambda>i. monthYearText rt (localMonth rt (created_at i))
                                         (nat (localYear rt (created_at i) mod 100)) = month b \<and>
                                        status i = ''resolved'') issues)"
    by (simp only: formatMonth_def)
  have 4: "processMonthlyReports (exampleRuntime (\<lambda>t. 0))
     [exampleIssue ''1'' ''Pothole'' None ''new'' False 1704412800000 None,
      exampleIssue ''2'' ''Pothole'' None ''resolved'' False 1704844800000 (Some 1705017600000)]
     = [\<lparr>month = ''Jan 24'', total = 2, resolved = 1\<rparr>]"
    by code_simp
  have 5: "processMonthlyReports (exampleRuntime (\<lambda>t. 0))
     [exampleIssue ''0'' ''Graffiti'' None ''new'' False 1689379200000 None,
      exampleIssue ''1'' ''Pothole'' None ''new'' False 1704412800000 None,
      exampleIssue ''2'' ''Pothole'' None ''resolved'' False 1704844800000 (Some 1705017600000)]
     = [\<lparr>month = ''Jul 23'', total = 1, resolved = 0\<rparr>,
        \<lparr>month = ''Jan 24'', total = 2, resolved = 1\<rparr>]"
    by code_simp
  from 1 2 3 4 5 show ?thesis by blast
qed

theorem monthly_buckets_witness:
  "\<lparr>month = ''Jan 24'', total = 2, resolved = 1\<rparr> \<in> set (processMonthlyReports
     (exampleRuntime (\<lambda>t. 0))
     [exampleIssue ''1'' ''Pothole'' None ''new'' False 1704412800000 None,
      exampleIssue ''2'' ''Pothole'' None ''resolved'' False 1704844800000 (Some 1705017600000)]) \<and>
   length (filter (\<lambda>i. monthYearText (exampleRuntime (\<lambda>t. 0))
                          (localMonth (exampleRuntime (\<lambda>t. 0)) (created_at i))
                          (nat (localYear (exampleRuntime (\<lambda>t. 0)) (created_at i) mod 100))
                        = ''Jan 24'')
     [exampleIssue ''1'' ''Pothole'' None ''new'' False 1704412800000 None,
      exampleIssue ''2'' ''Pothole'' None ''resolved'' False 1704844800000 (Some 1705017600000)]) = 2 \<and>
   length (filter (\<lambda>i. monthYearText (exampleRuntime (\<lambda>t. 0))
                          (localMonth (exampleRuntime (\<lambda>t. 0)) (created_at i))
                          (nat (localYear (exampleRuntime (\<lambda>t. 0)) (created_at i) mod 100))
                        = ''Jan 24'' \<and> status i = ''resolved'')
     [exampleIssue ''1'' ''Pothole'' None ''new'' False 1704412800000 None,
      exampleIssue ''2'' ''Pothole'' None ''resolved'' False 1704844800000 (Some 1705017600000)]) = 1"
proof -
  have h: "\<And>m y. monthYearText (exampleRuntime (\<lambda>t. 0)) m y \<notin> set objectPrototypeKeys"
    by (simp add: exampleRuntime_def enUS_not_inherited)
  note t = monthly_buckets[OF h, of
     "[exampleIssue ''1'' ''Pothole'' None ''new'' False 1704412800000 None,
      exampleIssue ''2'' ''Pothole'' None ''resolved'' False 1704844800000 (Some 1705017600000)]"]
  have m: "\<lparr>month = ''Jan 24'', total = 2, resolved = 1\<rparr> \<in> set (processMonthlyReports
     (exampleRuntime (\<lambda>t. 0))
     [exampleIssue ''1'' ''Pothole'' None ''new'' False 1704412800000 None,
      exampleIssue ''2'' ''Pothole'' None ''resolved'' False 1704844800000 (Some 1705017600000)])"
    by (simp add: t[THEN conjunct2, THEN conjunct2, THEN conjunct2, THEN conjunct1])
  from t[THEN conjunct2, THEN conjunct2, THEN conjunct1, rule_format, OF m] m
  show ?thesis by simp
qed

section \<open>Location hotspots\<close>

lemma hotspotStep_groupStep:
  "hotspotStep =
     groupStep locationKey (\<lambda>l. \<lparr>location = l, count = 0\<rparr>) (\<lambda>i b. b\<lparr>count := count b + 1\<rparr>)"
  by (intro ext) (simp add: hotspotStep_def groupStep_def Let_def)

lemma hotspots_at_most_ten: "length (processLocationHotspots issues) \<le> 10"
  by (simp add: processLocationHotspots_def)

lemma hotspots_sorted:
  "sorted_wrt (\<lambda>a b. count b \<le> count a) (processLocationHotspots issues)"
proof -
  have "jsSort (\<lambda>a b. int (count b) - int (count a)) (hotspotBuckets issues) =
        sort_key (\<lambda>a. - int (count a)) (hotspotBuckets issues)"
    by (rule jsSort_sort_key) simp
  moreover have "sorted (map (\<lambda>a. - int (count a))
                   (sort_key (\<lambda>a. - int (count a)) (hotspotBuckets issues)))"
    by (rule sorted_sort_key)
  ultimately have "sorted_wrt (\<lambda>a b. count b \<le> count a)
                     (jsSort (\<lambda>a b. int (count b) - int (count a)) (hotspotBuckets issues))"
    by (simp add: sorted_map)
  then show ?thesis
    unfolding processLocationHotspots_def by (rule sorted_wrt_take)
qed

lemma hotspot_counts_sum:
  "sum_list (map count (hotspotBuckets issues)) =
     length (filter (\<lambda>i. locationKey i \<notin> set objectPrototypeKeys) issues)"
proof -
  have "sum_list (map count (hotspotBuckets issues)) =
        sum_list (map (\<lambda>(k, v). count v) (foldl hotspotStep [] issues))"
    unfolding hotspotBuckets_def objectValues_def map_map
    using sum_list_objectEntries[of "\<lambda>(k, v). count v" "foldl hotspotStep [] issues"]
    by (simp add: o_def case_prod_unfold)
  also have "\<dots> = length (filter (\<lambda>i. locationKey i \<notin> set objectPrototypeKeys) issues)"
    unfolding hotspotStep_groupStep by (rule sum_list_foldl_groupStep) simp_all
  finally show ?thesis .
qed

lemma foldl_count:
  "foldl (\<lambda>b i. b\<lparr>count := Suc (count b)\<rparr>) b xs = b\<lparr>count := count b + length xs\<rparr>"
  by (induction xs arbitrary: b) simp_all

lemma hotspot_bucket:
  assumes "b \<in> set (hotspotBuckets issues)"
  shows "count b = length (filter (\<lambda>i. locationKey i = location b) issues)"
    and "location b \<in> locationKey ` set issues"
proof -
  from assms obtain k where kb: "(k, b) \<in> set (foldl hotspotStep [] issues)"
    by (auto simp: hotspotBuckets_def objectValues_def set_objectEntries)
  note e = entry_foldl_groupStep(1,2)[OF kb[unfolded hotspotStep_groupStep]]
  from e(1) have b: "b = \<lparr>location = k, count = length (filter (\<lambda>i. locationKey i = k) issues)\<rparr>"
    by (simp add: foldl_count)
  from b show "count b = length (filter (\<lambda>i. locationKey i = location b) issues)" by simp
  from b e(2) show "location b \<in> locationKey ` set issues" by simp
qed

text \<open>
  C6. The claim is that, for every issue list, the hotspot aggregation returns at most
  ten buckets sorted by count descending and that the counts of all buckets before the
  truncation add up to the number of input issues. The bound and the order hold
  (\<open>hotspots_at_most_ten\<close>, \<open>hotspots_sorted\<close>); the sum is the number of issues whose
  location is not the name of a member of \<open>Object.prototype\<close> (\<open>hotspot_counts_sum\<close>).
  For the single issue located at \<open>constructor\<close> the accumulator \<open>{}\<close> already reads a
  truthy \<open>acc['constructor']\<close>, no bucket is created, and the issue is counted nowhere:
  there is no bucket, and the sum is 0, not 1.
\<close>

theorem hotspots_drop_inherited_key:
  "hotspotBuckets [exampleIssue ''1'' ''Pothole'' (Some ''constructor'') ''new'' False 0 None] = [] \<and>
   sum_list (map count
     (hotspotBuckets [exampleIssue ''1'' ''Pothole'' (Some ''constructor'') ''new'' False 0 None])) = 0 \<and>
   length [exampleIssue ''1'' ''Pothole'' (Some ''constructor'') ''new'' False 0 None] = 1 \<and>
   processLocationHotspots
     [exampleIssue ''1'' ''Pothole'' (Some ''constructor'') ''new'' False 0 None] = []"
  by code_simp

section \<open>Resolution time\<close>

lemma resolutionStep_groupStep:
  "resolutionStep =
     groupStep category (\<lambda>k. \<lparr>total_time = 0, count_t = 0\<rparr>)
       (\<lambda>i b. b\<lparr>total_time := total_time b + hoursToResolve i, count_t := count_t b + 1\<rparr>)"
  by (intro ext) (simp add: resolutionStep_def groupStep_def Let_def modifyProp_modifyProp o_def)

lemma foldl_resolution:
  "foldl (\<lambda>b i. b\<lparr>total_time := total_time b + hoursToResolve i, count_t := Suc (count_t b)\<rparr>) b xs =
   b\<lparr>total_time := total_time b + sum_list (map hoursToResolve xs),
     count_t := count_t b + length xs\<rparr>"
  by (induction xs arbitrary: b) (simp_all add: add.assoc)

lemma resolution_entry:
  assumes "(c, b) \<in> set (foldl resolutionStep [] (filter isResolved issues))"
  shows "b = \<lparr>total_time =
                 sum_list (map hoursToResolve (filter (\<lambda>i. isResolved i \<and> category i = c) issues)),
               count_t = length (filter (\<lambda>i. isResolved i \<and> category i = c) issues)\<rparr>"
    and "filter (\<lambda>i. isResolved i \<and> category i = c) issues \<noteq> []"
    and "c \<notin> set objectPrototypeKeys"
proof -
  note e = entry_foldl_groupStep[OF assms[unfolded resolutionStep_groupStep]]
  have f: "filter (\<lambda>i. category i = c) (filter isResolved issues) =
           filter (\<lambda>i. isResolved i \<and> category i = c) issues"
    by (simp add: conj_commute)
  from e(1) show "b = \<lparr>total_time =
                 sum_list (map hoursToResolve (filter (\<lambda>i. isResolved i \<and> category i = c) issues)),
               count_t = length (filter (\<lambda>i. isResolved i \<and> category i = c) issues)\<rparr>"
    by (simp add: foldl_resolution f)
  from e(2) show "filter (\<lambda>i. isResolved i \<and> category i = c) issues \<noteq> []"
    by (auto simp: filter_empty_conv)
  from e(3) show "c \<notin> set objectPrototypeKeys" .
qed

text \<open>
  For every category that is not the name of a member of \<open>Object.prototype\<close>, the
  alternate dashboard reports the arithmetic mean of the hours from creation to
  resolution over the resolved issues of that category, and it reports nothing else.
\<close>

lemma resolution_average:
  assumes "r \<in> set (processResolutionTimes issues)"
  shows "avg_time_hours r =
           sum_list (map hoursToResolve
                      (filter (\<lambda>i. isResolved i \<and> category i = category_r r) issues)) /
           of_nat (length (filter (\<lambda>i. isResolved i \<and> category i = category_r r) issues))"
    and "filter (\<lambda>i. isResolved i \<and> category i = category_r r) issues \<noteq> []"
proof -
  from assms obtain c b where cb: "(c, b) \<in> set (foldl resolutionStep [] (filter isResolved issues))"
    and r: "r = \<lparr>category_r = c, avg_time_hours = total_time b / of_nat (count_t b)\<rparr>"
    by (auto simp: processResolutionTimes_def set_objectEntries)
  note e = resolution_entry[OF cb]
  show "avg_time_hours r =
           sum_list (map hoursToResolve
                      (filter (\<lambda>i. isResolved i \<and> category i = category_r r) issues)) /
           of_nat (length (filter (\<lambda>i. isResolved i \<and> category i = category_r r) issues))"
    by (simp add: r e(1))
  show "filter (\<lambda>i. isResolved i \<and> category i = category_r r) issues \<noteq> []"
    using e(2) by (simp add: r)
qed

lemma resolution_categories:
  "category_r ` set (processResolutionTimes issues) =
     {c \<in> category ` {i \<in> set issues. isResolved i}. c \<notin> set objectPrototypeKeys}"
proof -
  have "category_r ` set (processResolutionTimes issues) =
        fst ` set (foldl resolutionStep [] (filter isResolved issues))"
    by (force simp: processResolutionTimes_def set_objectEntries image_iff)
  also have "\<dots> = {c \<in> category ` set (filter isResolved issues). c \<notin> set objectPrototypeKeys}"
    unfolding resolutionStep_groupStep by (rule keys_foldl_groupStep)
  finally show ?thesis by simp
qed

lemma resolution_example:
  "processResolutionTimes
     [exampleIssue ''1'' ''Pothole'' None ''new'' False 1704412800000 None,
      exampleIssue ''2'' ''Pothole'' None ''resolved'' False 1704844800000 (Some 1705017600000)]
   = [\<lparr>category_r = ''Pothole'', avg_time_hours = 48\<rparr>]"
  by code_simp

text \<open>
  C8. The claim is that the resolution-time aggregation returns, for each category of the
  issues that are resolved and carry \<open>resolved_at\<close>, the mean of the hours between
  \<open>created_at\<close> and \<open>resolved_at\<close>. This holds for the categories that are not the name
  of a member of \<open>Object.prototype\<close> (\<open>resolution_average\<close>, \<open>resolution_categories\<close>),
  and the example of the specification gives 48 hours (\<open>resolution_example\<close>). For a
  resolved issue of category \<open>constructor\<close>, resolved 48 hours after its creation, the
  accumulator \<open>{}\<close> reads a truthy \<open>acc['constructor']\<close>, no entry is created, and the
  result holds no average for that category: it is empty.
\<close>

theorem resolution_times_drop_inherited_key:
  "isResolved
     (exampleIssue ''2'' ''constructor'' None ''resolved'' False 1704844800000 (Some 1705017600000)) \<and>
   hoursToResolve
     (exampleIssue ''2'' ''constructor'' None ''resolved'' False 1704844800000 (Some 1705017600000))
     = 48 \<and>
   processResolutionTimes
     [exampleIssue ''2'' ''constructor'' None ''resolved'' False 1704844800000 (Some 1705017600000)]
     = []"
  by code_simp

section \<open>The analytics and the spam flag\<close>

lemma foldl_map_same:
  assumes "\<And>a x. f a (h x) = f a x"
  shows "foldl f a (map h xs) = foldl f a xs"
  by (induction xs arbitrary: a) (simp_all add: assms)

lemma monthly_ignores_spam:
  "processMonthlyReports rt (map (\<lambda>i. i\<lparr>is_spam := g i\<rparr>) issues) = processMonthlyReports rt issues"
  unfolding processMonthlyReports_def
  by (subst foldl_map_same) (simp_all add: monthlyStep_def)

lemma category_ignores_spam:
  "processCategoryDistribution (map (\<lambda>i. i\<lparr>is_spam := g i\<rparr>) issues) =
     processCategoryDistribution issues"
  unfolding processCategoryDistribution_def
  by (subst foldl_map_same) (simp_all add: categoryStep_def)

lemma categoryAlt_ignores_spam:
  "processCategoryDistributionAlt (map (\<lambda>i. i\<lparr>is_spam := g i\<rparr>) issues) =
     processCategoryDistributionAlt issues"
  unfolding processCategoryDistributionAlt_def
  by (subst foldl_map_same) (simp_all add: categoryStepAlt_def)

lemma byDay_ignores_spam:
  "processReportsByDay tz (map (\<lambda>i. i\<lparr>is_spam := g i\<rparr>) issues) = processReportsByDay tz issues"
  unfolding processReportsByDay_def
  by (subst foldl_map_same) (simp_all add: dayStep_def)

lemma hotspots_ignore_spam:
  "processLocationHotspots (map (\<lambda>i. i\<lparr>is_spam := g i\<rparr>) issues) = processLocationHotspots issues"
  unfolding processLocationHotspots_def hotspotBuckets_def
  by (subst foldl_map_same) (simp_all add: hotspotStep_def locationKey_def)

lemma resolution_ignores_spam:
  "processResolutionTimes (map (\<lambda>i. i\<lparr>is_spam := g i\<rparr>) issues) = processResolutionTimes issues"
proof -
  have "filter isResolved (map (\<lambda>i. i\<lparr>is_spam := g i\<rparr>) issues) =
        map (\<lambda>i. i\<lparr>is_spam := g i\<rparr>) (filter isResolved issues)"
  proof -
    have "isResolved \<circ> (\<lambda>i. i\<lparr>is_spam := g i\<rparr>) = isResolved"
      by (rule ext) (simp add: isResolved_def)
    then show ?thesis by (simp add: filter_map)
  qed
  moreover have "foldl resolutionStep [] (map (\<lambda>i. i\<lparr>is_spam := g i\<rparr>) (filter isResolved issues)) =
        foldl resolutionStep [] (filter isResolved issues)"
    by (rule foldl_map_same) (simp add: resolutionStep_def hoursToResolve_def)
  ultimately show ?thesis
    by (simp add: processResolutionTimes_def)
qed

text \<open>
  C10. Both dashboards fetch the whole table, with no filter on \<open>is_spam\<close>, and no
  aggregator reads the flag: setting the flag of every issue to an arbitrary value
  (\<open>g\<close> chooses it, issue by issue) changes none of the summaries of either dashboard,
  whatever the locale and the time zone of the browser.
  Spam-flagged issues are therefore counted like the others; the day-of-week counts, for
  one, add up to the size of the table, spam included.
\<close>

theorem analytics_ignore_spam:
  "fetchData rt tz (map (\<lambda>i. i\<lparr>is_spam := g i\<rparr>) table) = fetchData rt tz table \<and>
   fetchDataAlt rt (map (\<lambda>i. i\<lparr>is_spam := g i\<rparr>) table) = fetchDataAlt rt table \<and>
   sum_list (map count_d (reportsByDayData (fetchData rt tz table))) = length table"
proof -
  have "sum_list (map count_d (processReportsByDay tz table)) = length table"
    unfolding processReportsByDay_eq map_map o_def
    using sum_list_partition_count[of "\<lambda>i. getDay tz (created_at i)" 7 table]
    by (simp add: getDay_less)
  then show ?thesis
    by (simp add: fetchData_def fetchDataAlt_def monthly_ignores_spam category_ignores_spam
        categoryAlt_ignores_spam byDay_ignores_spam hotspots_ignore_spam resolution_ignores_spam)
qed

section \<open>Validation order of the submission form\<close>

lemma handleSubmit_no_location:
  "\<not> locationResolved location_f \<Longrightarrow>
   handleSubmit env location_f photo t c d s l = [PreventDefault, ShowToast locationRequired]"
  by (cases location_f) (simp_all add: handleSubmit_def locationResolved_def)

lemma handleSubmit_no_photo:
  "locationResolved location_f \<Longrightarrow>
   handleSubmit env location_f None t c d s l = [PreventDefault, ShowToast photoRequired]"
  by (cases location_f) (simp_all add: handleSubmit_def locationResolved_def)

lemma handleSubmit_missing_field:
  "locationResolved location_f \<Longrightarrow> t = [] \<or> c = [] \<or> d = [] \<or> s = [] \<or> l = [] \<Longrightarrow>
   handleSubmit env location_f (Some ph) t c d s l = [PreventDefault, ShowToast missingInformation]"
  by (cases location_f) (auto simp: handleSubmit_def locationResolved_def)

lemma handleSubmit_accepted:
  "locationResolved location_f \<Longrightarrow> t \<noteq> [] \<Longrightarrow> c \<noteq> [] \<Longrightarrow> d \<noteq> [] \<Longrightarrow> s \<noteq> [] \<Longrightarrow> l \<noteq> [] \<Longrightarrow>
   take 3 (handleSubmit env location_f (Some ph) t c d s l) =
     [PreventDefault, SetIsSubmitting True, StorageUpload (now env @ ''.'' @ fileExt ph) ph]"
  by (cases location_f) (simp_all add: handleSubmit_def locationResolved_def Let_def)

text \<open>
  C9. The submit handler tests its preconditions in the order location, photo, required
  text fields, and the first one that fails ends the submission with its own
  notification and nothing else: no resolved location gives "Location Required",
  whatever the photo and the fields; a resolved location without a photo gives "Photo
  Required", whatever the fields; a resolved location and a photo with an empty required
  field give "Missing Information". Only when all three hold does the handler go on, and
  its first network call is then the upload. A submission without a photo never reaches
  a network call.
\<close>

theorem validation_order:
  "(\<not> locationResolved location_f \<longrightarrow>
      handleSubmit env location_f photo t c d s l = [PreventDefault, ShowToast locationRequired]) \<and>
   (locationResolved location_f \<and> photo = None \<longrightarrow>
      handleSubmit env location_f photo t c d s l = [PreventDefault, ShowToast photoRequired]) \<and>
   (locationResolved location_f \<and> photo \<noteq> None \<and>
      (t = [] \<or> c = [] \<or> d = [] \<or> s = [] \<or> l = []) \<longrightarrow>
      handleSubmit env location_f photo t c d s l =
        [PreventDefault, ShowToast missingInformation]) \<and>
   (locationResolved location_f \<and> photo \<noteq> None \<and>
      t \<noteq> [] \<and> c \<noteq> [] \<and> d \<noteq> [] \<and> s \<noteq> [] \<and> l \<noteq> [] \<longrightarrow>
      take 3 (handleSubmit env location_f photo t c d s l) =
        [PreventDefault, SetIsSubmitting True,
         StorageUpload (now env @ ''.'' @ fileExt (the photo)) (the photo)]) \<and>
   (photo = None \<longrightarrow>
      filter isNetworkCall (handleSubmit env location_f photo t c d s l) = [])"
proof (intro conjI impI)
  assume "\<not> locationResolved location_f"
  then show "handleSubmit env location_f photo t c d s l =
    [PreventDefault, ShowToast locationRequired]"
    by (rule handleSubmit_no_location)
next
  assume "locationResolved location_f \<and> photo = None"
  then show "handleSubmit env location_f photo t c d s l =
    [PreventDefault, ShowToast photoRequired]"
    by (simp add: handleSubmit_no_photo)
next
  assume a: "locationResolved location_f \<and> photo \<noteq> None \<and>
      (t = [] \<or> c = [] \<or> d = [] \<or> s = [] \<or> l = [])"
  then obtain ph where "photo = Some ph" by auto
  with a show "handleSubmit env location_f photo t c d s l =
        [PreventDefault, ShowToast missingInformation]"
    by (simp add: handleSubmit_missing_field)
next
  assume a: "locationResolved location_f \<and> photo \<noteq> None \<and>
      t \<noteq> [] \<and> c \<noteq> [] \<and> d \<noteq> [] \<and> s \<noteq> [] \<and> l \<noteq> []"
  then obtain ph where "photo = Some ph" by auto
  with a show "take 3 (handleSubmit env location_f photo t c d s l) =
        [PreventDefault, SetIsSubmitting True,
         StorageUpload (now env @ ''.'' @ fileExt (the photo)) (the photo)]"
    by (simp add: handleSubmit_accepted)
next
  assume p: "photo = None"
  show "filter isNetworkCall (handleSubmit env location_f photo t c d s l) = []"
  proof (cases "locationResolved location_f")
    case True
    with p show ?thesis by (simp add: handleSubmit_no_photo)
  next
    case False
    then show ?thesis by (simp add: handleSubmit_no_location)
  qed
qed

theorem validation_order_witness:
  "handleSubmit \<lparr>now = ''1700000000000'', uploadError = False, insertError = False, publicUrl = (\<lambda>n. ''https://storage/'' @ n)\<rparr>
     None None [] [] [] [] []
     = [PreventDefault, ShowToast locationRequired] \<and>
   handleSubmit \<lparr>now = ''1700000000000'', uploadError = False, insertError = False, publicUrl = (\<lambda>n. ''https://storage/'' @ n)\<rparr>
     (Some \<lparr>lat = 0, lng = 0, name_l = ''Springfield''\<rparr>) None [] [] [] [] []
     = [PreventDefault, ShowToast photoRequired] \<and>
   handleSubmit \<lparr>now = ''1700000000000'', uploadError = False, insertError = False, publicUrl = (\<lambda>n. ''https://storage/'' @ n)\<rparr>
     (Some \<lparr>lat = 0, lng = 0, name_l = ''Springfield''\<rparr>) (Some (File ''pothole.jpg''))
     ''Pothole on Main Street'' [] ''Deep hole'' ''1 Main Street'' ''Town hall''
     = [PreventDefault, ShowToast missingInformation] \<and>
   take 3 (handleSubmit \<lparr>now = ''1700000000000'', uploadError = False, insertError = False, publicUrl = (\<lambda>n. ''https://storage/'' @ n)\<rparr>
     (Some \<lparr>lat = 0, lng = 0, name_l = ''Springfield''\<rparr>) (Some (File ''pothole.jpg''))
     ''Pothole on Main Street'' ''Pothole'' ''Deep hole'' ''1 Main Street'' ''Town hall'')
     = [PreventDefault, SetIsSubmitting True,
        StorageUpload ''1700000000000.jpg'' (File ''pothole.jpg'')] \<and>
   filter isNetworkCall (handleSubmit \<lparr>now = ''1700000000000'', uploadError = False, insertError = False, publicUrl = (\<lambda>n. ''https://storage/'' @ n)\<rparr>
     (Some \<lparr>lat = 0, lng = 0, name_l = ''Springfield''\<rparr>) None
     ''Pothole on Main Street'' ''Pothole'' ''Deep hole'' ''1 Main Street'' ''Town hall'') = []"
  using
    validation_order[of None "\<lparr>now = ''1700000000000'', uploadError = False, insertError = False, publicUrl = (\<lambda>n. ''https://storage/'' @ n)\<rparr>" None "[]" "[]" "[]" "[]" "[]"]
    validation_order[of "Some \<lparr>lat = 0, lng = 0, name_l = ''Springfield''\<rparr>" "\<lparr>now = ''1700000000000'', uploadError = False, insertError = False, publicUrl = (\<lambda>n. ''https://storage/'' @ n)\<rparr>" None "[]" "[]" "[]" "[]" "[]"]
    validation_order[of "Some \<lparr>lat = 0, lng = 0, name_l = ''Springfield''\<rparr>" "\<lparr>now = ''1700000000000'', uploadError = False, insertError = False, publicUrl = (\<lambda>n. ''https://storage/'' @ n)\<rparr>" "Some (File ''pothole.jpg'')"
      "''Pothole on Main Street''" "[]" "''Deep hole''" "''1 Main Street''" "''Town hall''"]
    validation_order[of "Some \<lparr>lat = 0, lng = 0, name_l = ''Springfield''\<rparr>" "\<lparr>now = ''1700000000000'', uploadError = False, insertError = False, publicUrl = (\<lambda>n. ''https://storage/'' @ n)\<rparr>" "Some (File ''pothole.jpg'')"
      "''Pothole on Main Street''" "''Pothole''" "''Deep hole''" "''1 Main Street''" "''Town hall''"]
    validation_order[of "Some \<lparr>lat = 0, lng = 0, name_l = ''Springfield''\<rparr>" "\<lparr>now = ''1700000000000'', uploadError = False, insertError = False, publicUrl = (\<lambda>n. ''https://storage/'' @ n)\<rparr>" None
      "''Pothole on Main Street''" "''Pothole''" "''Deep hole''" "''1 Main Street''" "''Town hall''"]
  by (simp add: locationResolved_def fileExt_def)

end
